theory Spec2Isabelle
  imports Main "HOL-Library.Word"
begin

unbundle bit_operations_syntax

section \<open>DPH5005 serial interface: data model\<close>

text \<open>
  The development embeds \<^verbatim>\<open>src/dph5005/DPH5005_Interface.py\<close>. A Python \<^verbatim>\<open>bytes\<close> value is a
  list of 8-bit words, a Python integer is an \<open>int\<close>, a Python string is a \<open>string\<close>.
  Every exception the source can raise is a value of \<open>py_error\<close>, and a function that can
  raise returns \<open>py_error + 'a\<close> with \<open>Inl\<close> for the exception.
\<close>

type_synonym byte = "8 word"
type_synonym bytes = "byte list"

datatype py_error =
    KeyError
  | StructError
  | TypeError
  | IndexError
  | ValueError
  | AttributeError
  | SerialException
  | OSError

definition bind_e :: "py_error + 'a \<Rightarrow> ('a \<Rightarrow> py_error + 'b) \<Rightarrow> py_error + 'b" where
  "bind_e r f = (case r of Inl e \<Rightarrow> Inl e | Inr v \<Rightarrow> f v)"

subsection \<open>The three \<^verbatim>\<open>struct.Struct\<close> packers\<close>

text \<open>
  \<^verbatim>\<open>byte_packer = struct.Struct(">B")\<close>, \<^verbatim>\<open>data_packer = struct.Struct(">H")\<close> and
  \<^verbatim>\<open>crc_packer = struct.Struct("<H")\<close>. Packing an integer outside the format's range raises
  \<^verbatim>\<open>struct.error\<close>; unpacking a buffer whose length is not the format's size raises it too.
\<close>

definition byte_packer_pack :: "int \<Rightarrow> py_error + bytes" where
  "byte_packer_pack n =
     (if 0 \<le> n \<and> n \<le> 255 then Inr [word_of_int n] else Inl StructError)"

definition data_packer_pack :: "int \<Rightarrow> py_error + bytes" where
  "data_packer_pack n =
     (if 0 \<le> n \<and> n \<le> 65535 then Inr [word_of_int (n div 256), word_of_int (n mod 256)]
      else Inl StructError)"

definition crc_packer_pack :: "int \<Rightarrow> py_error + bytes" where
  "crc_packer_pack n =
     (if 0 \<le> n \<and> n \<le> 65535 then Inr [word_of_int (n mod 256), word_of_int (n div 256)]
      else Inl StructError)"

fun byte_packer_unpack :: "bytes \<Rightarrow> py_error + int" where
  "byte_packer_unpack [b] = Inr (uint b)"
| "byte_packer_unpack _ = Inl StructError"

fun data_packer_unpack :: "bytes \<Rightarrow> py_error + int" where
  "data_packer_unpack [hi, lo] = Inr (uint hi * 256 + uint lo)"
| "data_packer_unpack _ = Inl StructError"

subsection \<open>Tables of the module and of the class\<close>

text \<open>
  Python dictionaries keep insertion order and the decoder scans \<^verbatim>\<open>items()\<close> for the first
  match, so both tables are association lists in the order of the source.
\<close>

definition function_codes :: "(string \<times> bytes) list" where
  "function_codes = [(''read'', [0x03]), (''single_write'', [0x06]), (''multiple_write'', [0x10])]"

definition registers :: "(string \<times> bytes) list" where
  "registers =
     [(''V-SET'', [0x00, 0x00]),
      (''I-SET'', [0x00, 0x01]),
      (''V-OUT'', [0x00, 0x02]),
      (''I-OUT'', [0x00, 0x03]),
      (''POWER'', [0x00, 0x04]),
      (''V-IN'', [0x00, 0x05]),
      (''LOCK'', [0x00, 0x06]),
      (''PROTECT'', [0x00, 0x07]),
      (''CV/CC'', [0x00, 0x08]),
      (''ON/OFF'', [0x00, 0x09]),
      (''B-LED'', [0x00, 0x0A]),
      (''MODEL'', [0x00, 0x0B]),
      (''VERSION'', [0x00, 0x0C])]"

definition register_order :: "string list" where
  "register_order =
     [''V-SET'', ''I-SET'', ''V-OUT'', ''I-OUT'', ''POWER'', ''V-IN'', ''LOCK'',
      ''PROTECT'', ''CV/CC'', ''ON/OFF'', ''B-LED'', ''MODEL'', ''VERSION'']"

text \<open>\<^verbatim>\<open>d[k]\<close> on a dictionary: \<^verbatim>\<open>KeyError\<close> when the key is absent.\<close>

definition dict_get :: "('k \<times> 'v) list \<Rightarrow> 'k \<Rightarrow> py_error + 'v" where
  "dict_get d k = (case map_of d k of None \<Rightarrow> Inl KeyError | Some v \<Rightarrow> Inr v)"

text \<open>
  The scan \<^verbatim>\<open>for item in d.items(): if x == item[1]: x = item[0]; break\<close>: the key of the
  first entry whose value is \<open>x\<close>, or nothing when the loop runs to its end.
\<close>

fun reverse_lookup :: "('k \<times> 'v) list \<Rightarrow> 'v \<Rightarrow> 'k option" where
  "reverse_lookup [] x = None"
| "reverse_lookup ((k, v) # d) x = (if x = v then Some k else reverse_lookup d x)"

text \<open>\<^verbatim>\<open>list.index\<close>: the first position of the element, \<^verbatim>\<open>ValueError\<close> when it is absent.\<close>

fun list_index :: "'a list \<Rightarrow> 'a \<Rightarrow> py_error + nat" where
  "list_index [] x = Inl ValueError"
| "list_index (y # ys) x =
     (if x = y then Inr 0 else bind_e (list_index ys x) (\<lambda>i. Inr (Suc i)))"

section \<open>The checksum\<close>

text \<open>
  \<^verbatim>\<open>get_crc\<close>: the accumulator is an unbounded Python integer. The inner
  \<^verbatim>\<open>for i in range(8)\<close> is \<open>crc_shift\<close> iterated eight times, the outer loop over the
  message is \<open>crc_loop\<close>.
\<close>

definition crc_shift :: "int \<Rightarrow> int" where
  "crc_shift crc =
     (if crc AND 0x0001 = 0x0001 then drop_bit 1 crc XOR 0xA001 else drop_bit 1 crc)"

definition crc_byte :: "int \<Rightarrow> byte \<Rightarrow> int" where
  "crc_byte crc b = (crc_shift ^^ 8) (crc XOR uint b)"

fun crc_loop :: "int \<Rightarrow> bytes \<Rightarrow> int" where
  "crc_loop crc [] = crc"
| "crc_loop crc (b # msg) = crc_loop (crc_byte crc b) msg"

definition get_crc :: "bytes \<Rightarrow> py_error + bytes" where
  "get_crc message = crc_packer_pack (crc_loop 0xFFFF message)"

text \<open>
  The checksum as the specification words it: a 16-bit accumulator that starts at
  \<open>0xFFFF\<close>, takes each byte into its low byte by exclusive or, is shifted eight times per
  byte, and is emitted least significant byte first.
\<close>

definition spec_crc_step :: "16 word \<Rightarrow> 16 word" where
  "spec_crc_step acc = (if bit acc 0 then drop_bit 1 acc XOR 0xA001 else drop_bit 1 acc)"

definition spec_crc16_acc :: "bytes \<Rightarrow> 16 word" where
  "spec_crc16_acc msg = foldl (\<lambda>acc b. (spec_crc_step ^^ 8) (acc XOR ucast b)) 0xFFFF msg"

definition spec_crc16 :: "bytes \<Rightarrow> bytes" where
  "spec_crc16 msg = [ucast (spec_crc16_acc msg), ucast (drop_bit 8 (spec_crc16_acc msg))]"

section \<open>Arguments and results of \<^verbatim>\<open>send_command\<close>\<close>

text \<open>
  \<^verbatim>\<open>registers\<close> is either one register name or the tuple of a starting register and a count;
  \<^verbatim>\<open>data\<close> is \<^verbatim>\<open>None\<close>, one integer or a sequence of integers. The returned dictionary is
  empty, or holds only \<^verbatim>\<open>"mode"\<close>, or holds \<^verbatim>\<open>"address"\<close>, \<^verbatim>\<open>"mode"\<close>, \<^verbatim>\<open>"registers"\<close> and
  \<^verbatim>\<open>"data"\<close>; its \<^verbatim>\<open>"registers"\<close> entry is a name, the raw two bytes when the scan of the
  catalog found no name, or a list of names.
\<close>

datatype registers_arg = RegName string | RegSpan string int

datatype py_data = NoData | Value int | Values "int list"

datatype registers_field = RegisterName string | RegisterBytes bytes | RegisterList "string list"

datatype result =
    EmptyDict
  | FailureMode string
  | ParsedData int string registers_field py_data

text \<open>
  \<^verbatim>\<open>registers[0]\<close> and \<^verbatim>\<open>registers[1]\<close>. On a string they are characters: the first is looked up
  in the catalog as a one-character name, the second makes the packer raise
  \<^verbatim>\<open>struct.error\<close>. \<^verbatim>\<open>self.registers[registers]\<close> with a tuple as the key raises \<^verbatim>\<open>KeyError\<close>
  (a list in place of the tuple would raise \<^verbatim>\<open>TypeError\<close> there).
\<close>

fun registers_0 :: "registers_arg \<Rightarrow> py_error + string" where
  "registers_0 (RegSpan name count) = Inr name"
| "registers_0 (RegName []) = Inl IndexError"
| "registers_0 (RegName (c # cs)) = Inr [c]"

fun pack_registers_1 :: "(int \<Rightarrow> py_error + bytes) \<Rightarrow> registers_arg \<Rightarrow> py_error + bytes" where
  "pack_registers_1 pack (RegSpan name count) = pack count"
| "pack_registers_1 pack (RegName name) =
     (if length name < 2 then Inl IndexError else Inl StructError)"

fun range_registers_1 :: "registers_arg \<Rightarrow> py_error + nat list" where
  "range_registers_1 (RegSpan name count) = Inr [0..<nat count]"
| "range_registers_1 (RegName name) =
     (if length name < 2 then Inl IndexError else Inl TypeError)"

fun first_register :: "registers_arg \<Rightarrow> py_error + bytes" where
  "first_register (RegSpan name count) = dict_get registers name"
| "first_register (RegName name) = dict_get registers name"

fun whole_register :: "registers_arg \<Rightarrow> py_error + bytes" where
  "whole_register (RegName name) = dict_get registers name"
| "whole_register (RegSpan name count) = Inl KeyError"

text \<open>\<^verbatim>\<open>data_packer.pack(data)\<close> and \<^verbatim>\<open>data[i]\<close>.\<close>

fun pack_data :: "py_data \<Rightarrow> py_error + bytes" where
  "pack_data (Value v) = data_packer_pack v"
| "pack_data _ = Inl StructError"

fun data_item :: "py_data \<Rightarrow> nat \<Rightarrow> py_error + int" where
  "data_item (Values vs) i = (if i < length vs then Inr (vs ! i) else Inl IndexError)"
| "data_item _ i = Inl TypeError"

text \<open>The loop \<^verbatim>\<open>for i in range(0, registers[1]): command += data_packer.pack(data[i])\<close>.\<close>

fun pack_loop :: "py_data \<Rightarrow> nat list \<Rightarrow> bytes \<Rightarrow> py_error + bytes" where
  "pack_loop data [] command = Inr command"
| "pack_loop data (i # is) command =
     bind_e (data_item data i) (\<lambda>v.
     bind_e (data_packer_pack v) (\<lambda>b.
     pack_loop data is (command @ b)))"

section \<open>Building the command and the expected response\<close>

text \<open>
  Lines 136 to 160 of \<^verbatim>\<open>send_command\<close>: the result is the pair of the command frame and the
  expected response, or the first exception raised on the way.
\<close>

definition assemble_read ::
  "registers_arg \<Rightarrow> bytes \<Rightarrow> bytes \<Rightarrow> py_error + bytes \<times> bytes" where
  "assemble_read regs command expected_response =
     bind_e (pack_registers_1 data_packer_pack regs) (\<lambda>count.
     bind_e (pack_registers_1 (\<lambda>n. byte_packer_pack (n * 2)) regs) (\<lambda>byte_count.
     bind_e (range_registers_1 regs) (\<lambda>is.
     Inr (command @ count,
          expected_response @ byte_count @ concat (map (\<lambda>i. [0x00, 0x00]) is)))))"

definition assemble_single_write ::
  "registers_arg \<Rightarrow> py_data \<Rightarrow> bytes \<Rightarrow> bytes \<Rightarrow> py_error + bytes \<times> bytes" where
  "assemble_single_write regs data command expected_response =
     bind_e (pack_data data) (\<lambda>v.
     bind_e (whole_register regs) (\<lambda>r.
     bind_e (pack_data data) (\<lambda>v'.
     Inr (command @ v, expected_response @ r @ v'))))"

definition assemble_multiple_write ::
  "registers_arg \<Rightarrow> py_data \<Rightarrow> bytes \<Rightarrow> bytes \<Rightarrow> py_error + bytes \<times> bytes" where
  "assemble_multiple_write regs data command expected_response =
     bind_e (pack_registers_1 data_packer_pack regs) (\<lambda>count.
     bind_e (pack_registers_1 (\<lambda>n. byte_packer_pack (2 * n)) regs) (\<lambda>byte_count.
     bind_e (range_registers_1 regs) (\<lambda>is.
     bind_e (pack_loop data is (command @ count @ byte_count)) (\<lambda>command'.
     bind_e (bind_e (registers_0 regs) (dict_get registers)) (\<lambda>r.
     bind_e (pack_registers_1 data_packer_pack regs) (\<lambda>count'.
     Inr (command', expected_response @ r @ count')))))))"

definition assemble_command ::
  "int \<Rightarrow> string \<Rightarrow> registers_arg \<Rightarrow> py_data \<Rightarrow> py_error + bytes \<times> bytes" where
  "assemble_command address mode regs data =
     bind_e (byte_packer_pack address) (\<lambda>a.
     bind_e (dict_get function_codes mode) (\<lambda>f.
     bind_e (first_register regs) (\<lambda>r.
     bind_e
       (if mode = ''read'' then assemble_read regs (a @ f @ r) (a @ f)
        else if mode = ''single_write'' then assemble_single_write regs data (a @ f @ r) (a @ f)
        else if mode = ''multiple_write'' then
          assemble_multiple_write regs data (a @ f @ r) (a @ f)
        else Inr (a @ f @ r, a @ f))
       (\<lambda>(command, expected_response).
     bind_e (get_crc command) (\<lambda>c.
     bind_e (get_crc expected_response) (\<lambda>c'.
     Inr (command @ c, expected_response @ c')))))))"

section \<open>Decoding a response\<close>

text \<open>
  The loop \<^verbatim>\<open>for i in range(0, n): data.append(data_packer.unpack(buf[:2])[0]); buf = buf[2:]\<close>.
\<close>

fun unpack_loop :: "nat \<Rightarrow> bytes \<Rightarrow> py_error + int list" where
  "unpack_loop 0 buf = Inr []"
| "unpack_loop (Suc n) buf =
     bind_e (data_packer_unpack (take 2 buf)) (\<lambda>v.
     bind_e (unpack_loop n (drop 2 buf)) (\<lambda>vs. Inr (v # vs)))"

text \<open>
  \<^verbatim>\<open>self.register_order.index(starting_register)\<close>, where the starting register is a name
  when the scan of the catalog found one and is still the raw bytes otherwise.
\<close>

fun register_index :: "string option \<Rightarrow> py_error + nat" where
  "register_index None = Inl ValueError"
| "register_index (Some name) = list_index register_order name"

definition parse_response :: "bytes \<Rightarrow> bytes \<Rightarrow> py_error + result" where
  "parse_response command response =
     bind_e (byte_packer_unpack (take 1 response)) (\<lambda>address.
     let mode = reverse_lookup function_codes (take 1 (drop 1 response));
         response = drop 2 (take (length response - 2) response)
     in
       if mode = Some ''read'' then
         let starting_register = reverse_lookup registers (take 2 (drop 2 command)) in
         bind_e (byte_packer_unpack (take 1 response)) (\<lambda>byte_count.
         let number_of_registers = nat (byte_count div 2) in
         bind_e (register_index starting_register) (\<lambda>starting_index.
         bind_e (unpack_loop number_of_registers (drop 1 response)) (\<lambda>values.
         Inr (ParsedData address ''read''
                (RegisterList (take number_of_registers (drop starting_index register_order)))
                (Values values)))))
       else if mode = Some ''single_write'' then
         bind_e (data_packer_unpack (drop 2 response)) (\<lambda>v.
         Inr (ParsedData address ''single_write''
                (case reverse_lookup registers (take 2 response) of
                   Some name \<Rightarrow> RegisterName name
                 | None \<Rightarrow> RegisterBytes (take 2 response))
                (Value v)))
       else if mode = Some ''multiple_write'' then
         bind_e (data_packer_unpack (drop 2 response)) (\<lambda>count.
         let number_of_registers = nat count in
         bind_e (register_index (reverse_lookup registers (take 2 response))) (\<lambda>starting_index.
         bind_e (unpack_loop number_of_registers (drop 7 (take (length command - 2) command)))
           (\<lambda>values.
         Inr (ParsedData address ''multiple_write''
                (RegisterList (take number_of_registers (drop starting_index register_order)))
                (Values values)))))
       else Inr EmptyDict)"

text \<open>
  Lines 166 to 169 of \<^verbatim>\<open>send_command\<close>: the comparison of the trailing two bytes with the
  checksum of the rest, then the decoder or the failure marker.
\<close>

definition crc_valid :: "bytes \<Rightarrow> bool" where
  "crc_valid response =
     (Inr (drop (length response - 2) response) = get_crc (take (length response - 2) response))"

definition check_response :: "string \<Rightarrow> bytes \<Rightarrow> bytes \<Rightarrow> py_error + bool \<times> result" where
  "check_response mode command response =
     bind_e (get_crc (take (length response - 2) response)) (\<lambda>crc.
     if drop (length response - 2) response = crc
     then bind_e (parse_response command response) (\<lambda>parsed. Inr (True, parsed))
     else Inr (False, FailureMode mode))"

section \<open>The serial port and the session\<close>

text \<open>
  The \<^verbatim>\<open>serial\<close> package is not part of the repository: its behaviour is a parameter of the
  model. Each call on it is answered as a function of the calls made so far: opening a port
  gives a handle or raises, \<^verbatim>\<open>in_waiting\<close> gives a count or raises, \<^verbatim>\<open>write\<close> succeeds or
  raises, \<^verbatim>\<open>read\<close> gives bytes or raises; \<^verbatim>\<open>close\<close> returns. In \<open>py_error\<close> the value
  \<open>SerialException\<close> stands for \<^verbatim>\<open>serial.SerialException\<close> and its subclasses, \<open>OSError\<close> for
  any other \<^verbatim>\<open>OSError\<close>. The session is the attribute \<^verbatim>\<open>self.port\<close> and the log of the calls
  made on the package. The lock \<^verbatim>\<open>cmd_lock\<close> is taken and released around \<^verbatim>\<open>__send\<close>; with
  one caller it has no effect and is left out.
\<close>

type_synonym handle = nat

datatype event =
    Open string int
  | Close handle
  | InWaiting handle
  | Write handle bytes
  | Read handle nat

record serial_env =
  serial_open :: "event list \<Rightarrow> string \<Rightarrow> int \<Rightarrow> py_error + handle"
  serial_in_waiting :: "event list \<Rightarrow> handle \<Rightarrow> py_error + nat"
  serial_write :: "event list \<Rightarrow> handle \<Rightarrow> bytes \<Rightarrow> py_error option"
  serial_read :: "event list \<Rightarrow> handle \<Rightarrow> nat \<Rightarrow> py_error + bytes"

record session =
  port :: "handle option"
  trace :: "event list"

definition log_event :: "event \<Rightarrow> session \<Rightarrow> session" where
  "log_event e s = s\<lparr>trace := trace s @ [e]\<rparr>"

definition disconnect_port :: "session \<Rightarrow> session" where
  "disconnect_port s =
     (case port s of
        None \<Rightarrow> s
      | Some h \<Rightarrow> (log_event (Close h) s)\<lparr>port := None\<rparr>)"


definition is_port_alive :: "serial_env \<Rightarrow> session \<Rightarrow> (py_error + bool) \<times> session" where
  "is_port_alive env s =
     (case port s of
        None \<Rightarrow> (Inr False, s)
      | Some h \<Rightarrow>
          (case serial_in_waiting env (trace s) h of
             Inr n \<Rightarrow> (Inr True, log_event (InWaiting h) s)
           | Inl e \<Rightarrow>
               (if e = OSError \<or> e = SerialException
                then (Inr False, disconnect_port (log_event (InWaiting h) s))
                else (Inl e, log_event (InWaiting h) s))))"

definition send :: "serial_env \<Rightarrow> session \<Rightarrow> bytes \<Rightarrow> nat \<Rightarrow> (py_error + bytes) \<times> session" where
  "send env s command byte_length =
     (case is_port_alive env s of
        (Inl e, s1) \<Rightarrow> (Inl e, s1)
      | (Inr True, s1) \<Rightarrow>
          (case port s1 of
             None \<Rightarrow> (Inl AttributeError, s1)
           | Some h \<Rightarrow>
               (case serial_write env (trace s1) h command of
                  Some e \<Rightarrow> (Inl e, log_event (Write h command) s1)
                | None \<Rightarrow>
                    (let s2 = log_event (Write h command) s1
                     in (serial_read env (trace s2) h byte_length, log_event (Read h byte_length) s2))))
      | (Inr False, s1) \<Rightarrow> (Inr [0x00], s1))"

definition send_command ::
  "serial_env \<Rightarrow> session \<Rightarrow> int \<Rightarrow> string \<Rightarrow> registers_arg \<Rightarrow> py_data
     \<Rightarrow> (py_error + bool \<times> result) \<times> session" where
  "send_command env s address mode regs data =
     (case assemble_command address mode regs data of
        Inl e \<Rightarrow> (Inl e, s)
      | Inr (command, expected_response) \<Rightarrow>
          (case send env s command (length expected_response) of
             (Inl e, s1) \<Rightarrow> (Inl e, s1)
           | (Inr response, s1) \<Rightarrow> (check_response mode command response, s1)))"

section \<open>Notions used to state the properties\<close>

text \<open>
  The sixteen-bit big-endian field of an in-range integer, and the integers held by a buffer
  of such fields read two bytes at a time.
\<close>

definition be16 :: "int \<Rightarrow> bytes" where
  "be16 v = [word_of_int (v div 256), word_of_int (v mod 256)]"

fun be16_values :: "bytes \<Rightarrow> int list" where
  "be16_values (hi # lo # rest) = (uint hi * 256 + uint lo) # be16_values rest"
| "be16_values _ = []"

text \<open>
  The window of \<open>count\<close> consecutive names of \<open>register_order\<close> that starts at a name, and
  what a command names as its registers: one name, or such a window.
\<close>

definition register_window :: "string \<Rightarrow> int \<Rightarrow> string list" where
  "register_window name count =
     (case list_index register_order name of
        Inl e \<Rightarrow> []
      | Inr i \<Rightarrow> take (nat count) (drop i register_order))"

fun original_registers :: "registers_arg \<Rightarrow> registers_field" where
  "original_registers (RegName name) = RegisterName name"
| "original_registers (RegSpan name count) = RegisterList (register_window name count)"

text \<open>
  A valid command: a device address from 1 to 255 (the \<^verbatim>\<open>"ADDRESS"\<close> entry of \<^verbatim>\<open>limits\<close>); for a
  read or a multiple write a span that starts at a register of the catalog and stays inside
  it; for a single write one register of the catalog and a 16-bit value; for a multiple write
  as many 16-bit values as the span has registers.
\<close>

definition span_in_catalog :: "string \<Rightarrow> int \<Rightarrow> bool" where
  "span_in_catalog name count =
     (case list_index register_order name of
        Inl e \<Rightarrow> False
      | Inr i \<Rightarrow> 0 \<le> count \<and> int i + count \<le> int (length register_order))"

definition is_u16 :: "int \<Rightarrow> bool" where
  "is_u16 v = (0 \<le> v \<and> v \<le> 65535)"

fun valid_data :: "string \<Rightarrow> int \<Rightarrow> py_data \<Rightarrow> bool" where
  "valid_data mode count (Values vs) =
     (mode = ''read'' \<or> (int (length vs) = count \<and> list_all is_u16 vs))"
| "valid_data mode count data = (mode = ''read'')"

fun valid_command :: "int \<Rightarrow> string \<Rightarrow> registers_arg \<Rightarrow> py_data \<Rightarrow> bool" where
  "valid_command address mode (RegName name) data =
     (1 \<le> address \<and> address \<le> 255 \<and> mode = ''single_write'' \<and> name \<in> set register_order \<and>
      (case data of Value v \<Rightarrow> is_u16 v | _ \<Rightarrow> False))"
| "valid_command address mode (RegSpan name count) data =
     (1 \<le> address \<and> address \<le> 255 \<and> (mode = ''read'' \<or> mode = ''multiple_write'') \<and>
      span_in_catalog name count \<and> valid_data mode count data)"

text \<open>
  The answer of a correct device to a command, given the expected response built with it:
  for the two writes the expected response itself; for a read the same length, the same
  three leading bytes (address, function code, byte count) and a checksum that holds, the
  register contents being the device's.
\<close>

definition correct_reply :: "string \<Rightarrow> bytes \<Rightarrow> bytes \<Rightarrow> bool" where
  "correct_reply mode expected_response response =
     (if mode = ''read''
      then length response = length expected_response \<and>
           take 3 response = take 3 expected_response \<and> crc_valid response
      else response = expected_response)"

text \<open>Successive calls of \<^verbatim>\<open>__send\<close> on one session, each on the state the last one left.\<close>

fun send_all ::
  "serial_env \<Rightarrow> session \<Rightarrow> (bytes \<times> nat) list \<Rightarrow> (py_error + bytes) list \<times> session" where
  "send_all env s [] = ([], s)"
| "send_all env s ((command, byte_length) # calls) =
     (case send env s command byte_length of
        (r, s1) \<Rightarrow> (case send_all env s1 calls of (rs, s2) \<Rightarrow> (r # rs, s2)))"

text \<open>The register a command names: the single one, or the first of its span.\<close>

fun named_register :: "registers_arg \<Rightarrow> string" where
  "named_register (RegName name) = name"
| "named_register (RegSpan name count) = name"

text \<open>
  A port for examples: every open and every probe has the given outcome, every write
  succeeds and every read returns the given bytes.
\<close>

definition fixed_port :: "py_error + handle \<Rightarrow> py_error + nat \<Rightarrow> bytes \<Rightarrow> serial_env" where
  "fixed_port opened p reply =
     \<lparr>serial_open = (\<lambda>tr name timeout. opened),
      serial_in_waiting = (\<lambda>tr h. p),
      serial_write = (\<lambda>tr h command. None),
      serial_read = (\<lambda>tr h n. Inr reply)\<rparr>"

section \<open>The checksum is the 16-bit Modbus checksum\<close>

lemma crc_test_uint: "(uint (w :: 16 word) AND 0x0001 = 0x0001) = bit w 0"
proof -
  have "bit w 0 = bit (uint w) 0" by (simp add: bit_uint_iff)
  also have "\<dots> = odd (uint w)" by (simp only: bit_0)
  finally show ?thesis by (simp add: and_one_eq mod2_eq_if)
qed

lemma uint_drop_bit_one: "drop_bit 1 (uint (w :: 16 word)) = uint (drop_bit 1 w)"
proof -
  have "take_bit 16 (uint w) = uint w"
    using uint_bounded [of w] by (simp add: take_bit_int_eq_self)
  then show ?thesis by (simp add: unsigned_drop_bit_eq)
qed

lemma crc_shift_uint: "crc_shift (uint (w :: 16 word)) = uint (spec_crc_step w)"
  unfolding crc_shift_def spec_crc_step_def crc_test_uint uint_drop_bit_one
  by (simp add: unsigned_xor_eq)

lemma crc_shift_pow_uint:
  "(crc_shift ^^ n) (uint (w :: 16 word)) = uint ((spec_crc_step ^^ n) w)"
  by (induction n) (simp_all add: crc_shift_uint)

lemma uint_xor_byte: "uint (w :: 16 word) XOR uint (b :: byte) = uint (w XOR ucast b)"
proof -
  have "uint b < 256" using uint_bounded [of b] by simp
  then have "uint b mod 65536 = uint b" by simp
  then show ?thesis
    by (simp add: unsigned_xor_eq unsigned_ucast_eq take_bit_eq_mod)
qed

lemma crc_byte_uint:
  "crc_byte (uint (w :: 16 word)) b = uint ((spec_crc_step ^^ 8) (w XOR ucast b))"
  by (simp only: crc_byte_def uint_xor_byte crc_shift_pow_uint)

lemma crc_loop_uint:
  "crc_loop (uint (w :: 16 word)) msg =
     uint (foldl (\<lambda>acc b. (spec_crc_step ^^ 8) (acc XOR ucast b)) w msg)"
  by (induction msg arbitrary: w) (simp_all add: crc_byte_uint)

lemma crc_loop_init: "crc_loop 0xFFFF msg = uint (spec_crc16_acc msg)"
proof -
  have "(0xFFFF :: int) = uint (0xFFFF :: 16 word)" by simp
  then show ?thesis
    unfolding spec_crc16_acc_def by (simp only: crc_loop_uint)
qed

lemma word16_low_byte: "(word_of_int (uint (w :: 16 word) mod 256) :: byte) = ucast w"
  by (rule bit_word_eqI)
    (auto simp add: bit_simps simp flip: take_bit_eq_mod [where n=8, simplified])

lemma word16_high_byte:
  "(word_of_int (uint (w :: 16 word) div 256) :: byte) = ucast (drop_bit 8 w)"
  by (rule bit_word_eqI)
    (auto simp add: bit_simps simp flip: drop_bit_eq_div [where n=8, simplified])

lemma get_crc_refines: "get_crc msg = Inr (spec_crc16 msg)"
proof -
  have "0 \<le> uint (spec_crc16_acc msg)" by simp
  moreover have "uint (spec_crc16_acc msg) \<le> 65535"
    using uint_bounded [of "spec_crc16_acc msg"] by simp
  ultimately show ?thesis
    by (simp add: get_crc_def crc_loop_init crc_packer_pack_def spec_crc16_def
        word16_low_byte word16_high_byte)
qed

lemma length_spec_crc16: "length (spec_crc16 msg) = 2"
  by (simp add: spec_crc16_def)

text \<open>
  Claim C2. For every byte sequence \<^verbatim>\<open>get_crc\<close> raises nothing and returns exactly the two
  bytes of the specification's checksum: a 16-bit accumulator started at \<open>0xFFFF\<close>, each
  byte taken into its low byte by exclusive or and followed by eight steps (shift right,
  and exclusive or with \<open>0xA001\<close> when the bit shifted out was set), emitted least
  significant byte first. On the empty byte string the result is \<open>0xFF 0xFF\<close>, and on the
  reference string \<^verbatim>\<open>123456789\<close> it is the published Modbus check value \<open>0x4B37\<close>, low byte
  first.
\<close>

theorem get_crc_is_modbus_crc16:
  "get_crc msg = Inr (spec_crc16 msg) \<and> length (spec_crc16 msg) = 2 \<and>
   get_crc [] = Inr [0xFF, 0xFF] \<and>
   get_crc [0x31, 0x32, 0x33, 0x34, 0x35, 0x36, 0x37, 0x38, 0x39] = Inr [0x37, 0x4B]"
proof -
  have "get_crc [] = Inr [0xFF, 0xFF]"
    by code_simp
  moreover have
    "get_crc [0x31, 0x32, 0x33, 0x34, 0x35, 0x36, 0x37, 0x38, 0x39] = Inr [0x37, 0x4B]"
    by code_simp
  ultimately show ?thesis
    by (simp only: get_crc_refines length_spec_crc16 simp_thms)
qed

section \<open>The catalog and the register order\<close>

text \<open>
  Claim C10. The catalog and the order list hold the same 13 names, without repetition and
  in the same order; read as a big-endian integer, the address of the name at each position
  of the order list is that position, from \<open>V-SET\<close> at 0 to \<open>VERSION\<close> at 12.
\<close>

theorem catalog_address_is_ordinal:
  "set (map fst registers) = set register_order \<and>
   map fst registers = register_order \<and>
   distinct register_order \<and> length register_order = 13 \<and>
   map (\<lambda>name. bind_e (dict_get registers name) data_packer_unpack) register_order =
     map (\<lambda>i. Inr (int i)) [0..<13] \<and>
   map (list_index register_order) register_order = map Inr [0..<13] \<and>
   dict_get registers ''V-SET'' = Inr [0x00, 0x00] \<and>
   list_index register_order ''V-SET'' = Inr 0 \<and>
   dict_get registers ''VERSION'' = Inr [0x00, 0x0C] \<and>
   list_index register_order ''VERSION'' = Inr 12"
  by (simp add: registers_def register_order_def dict_get_def bind_e_def upt_rec)

lemma catalog_names: "map fst registers = register_order"
  by (simp add: registers_def register_order_def)

lemma dict_get_unknown_register:
  "name \<notin> set register_order \<Longrightarrow> dict_get registers name = Inl KeyError"
proof -
  assume "name \<notin> set register_order"
  then have "name \<notin> fst ` set registers"
    by (simp flip: catalog_names)
  then have "map_of registers name = None"
    by (simp add: map_of_eq_None_iff)
  then show ?thesis by (simp add: dict_get_def)
qed

lemma dict_get_known_register:
  "name \<in> set register_order \<Longrightarrow> \<exists>r. dict_get registers name = Inr r \<and> length r = 2"
  by (auto simp add: dict_get_def registers_def register_order_def)

section \<open>The session: connecting and probing\<close>




lemma send_disconnected: "port s = None \<Longrightarrow> send env s command n = (Inr [0x00], s)"
  by (simp add: send_def is_port_alive_def)

lemma send_all_disconnected:
  "port s = None \<Longrightarrow> send_all env s calls = (map (\<lambda>c. Inr [0x00]) calls, s)"
  by (induction calls) (auto simp add: send_disconnected)

text \<open>
  Claim C6. When the session holds a handle and the probe \<^verbatim>\<open>in_waiting\<close> raises \<^verbatim>\<open>OSError\<close> or
  \<^verbatim>\<open>SerialException\<close>, \<^verbatim>\<open>is_port_alive\<close> closes the port, clears the handle and returns false.
  On the session it leaves, every call of \<^verbatim>\<open>__send\<close>, and so every sequence of such calls,
  returns the single byte \<open>0x00\<close> and leaves the session as it is: nothing is probed,
  written or read.
\<close>

theorem probe_fault_disconnects:
  assumes "port s = Some h"
    and "serial_in_waiting env (trace s) h = Inl OSError \<or>
         serial_in_waiting env (trace s) h = Inl SerialException"
    and "s' = \<lparr>port = None, trace = trace s @ [InWaiting h, Close h]\<rparr>"
  shows "is_port_alive env s = (Inr False, s') \<and>
         send env s' command n = (Inr [0x00], s') \<and>
         send_all env s' calls = (map (\<lambda>c. Inr [0x00]) calls, s')"
proof -
  have "is_port_alive env s = (Inr False, s')"
    using assms
    by (cases s) (auto simp add: is_port_alive_def disconnect_port_def log_event_def)
  moreover have "port s' = None" using assms by simp
  ultimately show ?thesis
    by (simp add: send_disconnected send_all_disconnected)
qed

theorem probe_fault_disconnects_witness:
  "is_port_alive (fixed_port (Inr 0) (Inl OSError) [])
       \<lparr>port = Some 0, trace = [Open ''/dev/tnt0'' 1]\<rparr> =
     (Inr False, \<lparr>port = None, trace = [Open ''/dev/tnt0'' 1, InWaiting 0, Close 0]\<rparr>) \<and>
   send_all (fixed_port (Inr 0) (Inl OSError) [])
       \<lparr>port = None, trace = [Open ''/dev/tnt0'' 1, InWaiting 0, Close 0]\<rparr>
       [([0x01, 0x03], 9), ([0x01, 0x06], 8)] =
     ([Inr [0x00], Inr [0x00]],
      \<lparr>port = None, trace = [Open ''/dev/tnt0'' 1, InWaiting 0, Close 0]\<rparr>)"
  using probe_fault_disconnects [of "\<lparr>port = Some 0, trace = [Open ''/dev/tnt0'' 1]\<rparr>" 0
      "fixed_port (Inr 0) (Inl OSError) []"
      "\<lparr>port = None, trace = [Open ''/dev/tnt0'' 1, InWaiting 0, Close 0]\<rparr>"
      "[]" 0 "[([0x01, 0x03], 9), ([0x01, 0x06], 8)]"]
  by (simp add: fixed_port_def)

section \<open>Misuse is caught while the command is built\<close>

lemma dict_get_unknown_mode:
  "mode \<notin> {''read'', ''single_write'', ''multiple_write''} \<Longrightarrow>
     dict_get function_codes mode = Inl KeyError"
  by (simp add: dict_get_def function_codes_def)

lemma first_register_unknown:
  "named_register regs \<notin> set register_order \<Longrightarrow> first_register regs = Inl KeyError"
  by (cases regs) (simp_all add: dict_get_unknown_register)

lemma assemble_command_misuse:
  assumes "mode \<notin> {''read'', ''single_write'', ''multiple_write''} \<or>
           named_register regs \<notin> set register_order"
  shows "assemble_command address mode regs data =
           Inl (if 0 \<le> address \<and> address \<le> 255 then KeyError else StructError)"
proof (cases "0 \<le> address \<and> address \<le> 255")
  case False
  then have "byte_packer_pack address = Inl StructError"
    by (simp add: byte_packer_pack_def)
  with False show ?thesis
    by (simp add: assemble_command_def bind_e_def)
next
  case True
  then have a: "byte_packer_pack address = Inr [word_of_int address]"
    by (simp add: byte_packer_pack_def)
  show ?thesis
  proof (cases "mode \<in> {''read'', ''single_write'', ''multiple_write''}")
    case False
    then have "dict_get function_codes mode = Inl KeyError"
      by (rule dict_get_unknown_mode)
    with a True show ?thesis
      by (simp add: assemble_command_def bind_e_def)
  next
    case mode: True
    with assms have "named_register regs \<notin> set register_order"
      by blast
    then have "first_register regs = Inl KeyError"
      by (rule first_register_unknown)
    moreover from mode obtain f where "dict_get function_codes mode = Inr f"
      by (auto simp add: dict_get_def function_codes_def)
    ultimately show ?thesis
      using a True by (simp add: assemble_command_def bind_e_def)
  qed
qed

text \<open>
  Claim C5. A call of \<^verbatim>\<open>send_command\<close> whose mode is none of \<^verbatim>\<open>read\<close>, \<^verbatim>\<open>single_write\<close>,
  \<^verbatim>\<open>multiple_write\<close>, or whose register name is not in the catalog, raises an exception and
  leaves the session exactly as it was: the handle is the same and no call on the port was
  made, so no byte was written. The exception is \<^verbatim>\<open>KeyError\<close> from the table that misses the
  key; when the device address does not fit a byte as well, \<^verbatim>\<open>struct.error\<close> from packing the
  address comes first.
\<close>

theorem misuse_fails_before_io:
  assumes "mode \<notin> {''read'', ''single_write'', ''multiple_write''} \<or>
           named_register regs \<notin> set register_order"
  shows "send_command env s address mode regs data =
           (Inl (if 0 \<le> address \<and> address \<le> 255 then KeyError else StructError), s)"
  by (simp add: send_command_def assemble_command_misuse [OF assms])

theorem misuse_fails_before_io_witness:
  "send_command (fixed_port (Inr 0) (Inr 0) []) \<lparr>port = Some 0, trace = [Open ''/dev/tnt0'' 1]\<rparr>
      1 ''write'' (RegName ''V-SET'') (Value 500) =
     (Inl KeyError, \<lparr>port = Some 0, trace = [Open ''/dev/tnt0'' 1]\<rparr>) \<and>
   send_command (fixed_port (Inr 0) (Inr 0) []) \<lparr>port = Some 0, trace = [Open ''/dev/tnt0'' 1]\<rparr>
      1 ''read'' (RegSpan ''V-MAX'' 2) NoData =
     (Inl KeyError, \<lparr>port = Some 0, trace = [Open ''/dev/tnt0'' 1]\<rparr>)"
  using misuse_fails_before_io [of "''write''" "RegName ''V-SET''" "fixed_port (Inr 0) (Inr 0) []"
      "\<lparr>port = Some 0, trace = [Open ''/dev/tnt0'' 1]\<rparr>" 1 "Value 500"]
    misuse_fails_before_io [of "''read''" "RegSpan ''V-MAX'' 2" "fixed_port (Inr 0) (Inr 0) []"
      "\<lparr>port = Some 0, trace = [Open ''/dev/tnt0'' 1]\<rparr>" 1 NoData]
  by (simp add: register_order_def)

section \<open>The single write and its echo\<close>

text \<open>
  Claim C9. For every valid single write the command is built, the expected response built
  with it is the same byte sequence as the command frame, and that frame has 8 bytes.
\<close>

theorem single_write_expects_echo:
  assumes "valid_command address ''single_write'' regs data"
  shows "\<exists>frame. assemble_command address ''single_write'' regs data = Inr (frame, frame) \<and>
                  length frame = 8"
proof -
  from assms obtain name v where regs: "regs = RegName name" and data: "data = Value v"
    and a: "1 \<le> address" "address \<le> 255" and n: "name \<in> set register_order" and v: "is_u16 v"
    by (cases regs; cases data) auto
  from n obtain r where r: "dict_get registers name = Inr r" "length r = 2"
    using dict_get_known_register by blast
  show ?thesis
    using a r v
    by (simp add: regs data assemble_command_def assemble_single_write_def bind_e_def
        byte_packer_pack_def data_packer_pack_def is_u16_def function_codes_def dict_get_def
        get_crc_refines length_spec_crc16)
qed

theorem single_write_expects_echo_witness:
  "assemble_command 1 ''single_write'' (RegName ''V-SET'') (Value 500) =
     Inr ([0x01, 0x06, 0x00, 0x00, 0x01, 0xF4, 0x89, 0xDD],
          [0x01, 0x06, 0x00, 0x00, 0x01, 0xF4, 0x89, 0xDD])"
proof -
  have "valid_command 1 ''single_write'' (RegName ''V-SET'') (Value 500)"
    by (simp add: register_order_def is_u16_def)
  from single_write_expects_echo [OF this] obtain frame
    where "assemble_command 1 ''single_write'' (RegName ''V-SET'') (Value 500) =
             Inr (frame, frame)"
    by blast
  moreover have
    "fst (projr (assemble_command 1 ''single_write'' (RegName ''V-SET'') (Value 500))) =
       [0x01, 0x06, 0x00, 0x00, 0x01, 0xF4, 0x89, 0xDD]"
    by code_simp
  ultimately show ?thesis by simp
qed

section \<open>The checksum gate of \<^verbatim>\<open>send_command\<close>\<close>

lemma crc_valid_iff:
  "crc_valid r = (drop (length r - 2) r = spec_crc16 (take (length r - 2) r))"
  by (simp add: crc_valid_def get_crc_refines)

lemma crc_valid_length: "crc_valid r \<Longrightarrow> 2 \<le> length r"
proof -
  assume "crc_valid r"
  then have "length (drop (length r - 2) r) = 2"
    by (simp only: crc_valid_iff length_spec_crc16)
  then show ?thesis by simp
qed

lemma check_response_eq:
  "check_response mode command response =
     (if crc_valid response
      then bind_e (parse_response command response) (\<lambda>parsed. Inr (True, parsed))
      else Inr (False, FailureMode mode))"
  by (simp add: check_response_def crc_valid_iff get_crc_refines bind_e_def)

lemma send_command_checked:
  assumes "assemble_command address mode regs data = Inr (command, expected_response)"
    and "send env s command (length expected_response) = (Inr response, s1)"
    and "check_response mode command response = res"
  shows "send_command env s address mode regs data = (res, s1)"
  using assms by (simp add: send_command_def)

text \<open>
  Claim C3. Whenever a command was built and \<^verbatim>\<open>__send\<close> returned a response: if the last two
  bytes of the response are not the checksum of the bytes before them, \<^verbatim>\<open>send_command\<close>
  returns false with the dictionary that holds only the mode it was called with, whatever
  the decoder would do on that response; if they are, the result is the decoder's on the
  command and the response, paired with true.
\<close>

theorem crc_mismatch_gives_failure_marker:
  assumes "assemble_command address mode regs data = Inr (command, expected_response)"
    and "send env s command (length expected_response) = (Inr response, s1)"
  shows "(\<not> crc_valid response \<longrightarrow>
            send_command env s address mode regs data = (Inr (False, FailureMode mode), s1)) \<and>
         (crc_valid response \<longrightarrow>
            send_command env s address mode regs data =
              (bind_e (parse_response command response) (\<lambda>parsed. Inr (True, parsed)), s1))"
  using assms by (simp add: send_command_def check_response_eq)

theorem crc_mismatch_gives_failure_marker_witness:
  "send_command (fixed_port (Inr 0) (Inr 0) [0x01, 0x03, 0x04]) \<lparr>port = Some 0, trace = []\<rparr>
      1 ''read'' (RegSpan ''V-SET'' 2) NoData =
     (Inr (False, FailureMode ''read''),
      \<lparr>port = Some 0,
       trace = [InWaiting 0, Write 0 [0x01, 0x03, 0x00, 0x00, 0x00, 0x02, 0xC4, 0x0B],
                Read 0 9]\<rparr>) \<and>
   parse_response [0x01, 0x03, 0x00, 0x00, 0x00, 0x02, 0xC4, 0x0B] [0x01, 0x03, 0x04] =
     Inl StructError \<and>
   send_command (fixed_port (Inr 0) (Inr 0) [0x01, 0x03, 0x04, 0x04, 0xD2, 0x01, 0xF4, 0x5B, 0x2D])
      \<lparr>port = Some 0, trace = []\<rparr> 1 ''read'' (RegSpan ''V-SET'' 2) NoData =
     (Inr (True, ParsedData 1 ''read'' (RegisterList [''V-SET'', ''I-SET''])
                   (Values [1234, 500])),
      \<lparr>port = Some 0,
       trace = [InWaiting 0, Write 0 [0x01, 0x03, 0x00, 0x00, 0x00, 0x02, 0xC4, 0x0B],
                Read 0 9]\<rparr>)"
proof -
  have frame: "assemble_command 1 ''read'' (RegSpan ''V-SET'' 2) NoData =
    Inr ([0x01, 0x03, 0x00, 0x00, 0x00, 0x02, 0xC4, 0x0B],
         [0x01, 0x03, 0x04, 0x00, 0x00, 0x00, 0x00, 0xFA, 0x33])"
    by code_simp
  have sent: "\<And>reply. send (fixed_port (Inr 0) (Inr 0) reply) \<lparr>port = Some 0, trace = []\<rparr>
            [0x01, 0x03, 0x00, 0x00, 0x00, 0x02, 0xC4, 0x0B]
            (length [0x01 :: byte, 0x03, 0x04, 0x00, 0x00, 0x00, 0x00, 0xFA, 0x33]) =
          (Inr reply,
           \<lparr>port = Some 0,
            trace = [InWaiting 0, Write 0 [0x01, 0x03, 0x00, 0x00, 0x00, 0x02, 0xC4, 0x0B],
                     Read 0 9]\<rparr>)"
    by (simp add: send_def is_port_alive_def fixed_port_def log_event_def)
  have bad: "\<not> crc_valid [0x01, 0x03, 0x04]"
    by code_simp
  have good: "crc_valid [0x01, 0x03, 0x04, 0x04, 0xD2, 0x01, 0xF4, 0x5B, 0x2D]"
    by code_simp
  have raises:
    "parse_response [0x01, 0x03, 0x00, 0x00, 0x00, 0x02, 0xC4, 0x0B] [0x01, 0x03, 0x04] =
       Inl StructError"
    by code_simp
  have parsed:
    "parse_response [0x01, 0x03, 0x00, 0x00, 0x00, 0x02, 0xC4, 0x0B]
       [0x01, 0x03, 0x04, 0x04, 0xD2, 0x01, 0xF4, 0x5B, 0x2D] =
     Inr (ParsedData 1 ''read'' (RegisterList [''V-SET'', ''I-SET'']) (Values [1234, 500]))"
    by code_simp
  show ?thesis
    using crc_mismatch_gives_failure_marker [OF frame sent, of "[0x01, 0x03, 0x04]"]
      crc_mismatch_gives_failure_marker [OF frame sent,
        of "[0x01, 0x03, 0x04, 0x04, 0xD2, 0x01, 0xF4, 0x5B, 0x2D]"]
      bad good raises parsed
    by (simp add: bind_e_def)
qed

section \<open>A response with an unknown function code\<close>

lemma reverse_lookup_function_codes:
  "m \<notin> {[0x03], [0x06], [0x10]} \<Longrightarrow> reverse_lookup function_codes m = None"
  by (simp add: function_codes_def)

text \<open>
  Claim C8. For every response whose checksum holds and whose function code
  \<^verbatim>\<open>response[1:2]\<close> is none of \<open>0x03\<close>, \<open>0x06\<close>, \<open>0x10\<close>, the decoder raises nothing and
  returns the empty dictionary, which holds no address, mode, registers or data;
  \<^verbatim>\<open>send_command\<close> hands that empty dictionary on, paired with true.
\<close>

theorem unknown_function_code_gives_empty_result:
  assumes "crc_valid response"
    and "take 1 (drop 1 response) \<notin> {[0x03], [0x06], [0x10]}"
  shows "parse_response command response = Inr EmptyDict \<and>
         check_response mode command response = Inr (True, EmptyDict)"
proof -
  from assms(1) have "2 \<le> length response" by (rule crc_valid_length)
  then obtain b rest where "response = b # rest" by (cases response) auto
  then have "byte_packer_unpack (take 1 response) = Inr (uint b)" by simp
  then have "parse_response command response = Inr EmptyDict"
    using reverse_lookup_function_codes [OF assms(2)]
    by (simp add: parse_response_def bind_e_def Let_def)
  then show ?thesis
    using assms(1) by (simp add: check_response_eq bind_e_def)
qed

theorem unknown_function_code_gives_empty_result_witness:
  "parse_response [0x01, 0x03, 0x00, 0x00, 0x00, 0x02, 0xC4, 0x0B]
     [0x01, 0x83, 0x02, 0xC0, 0xF1] = Inr EmptyDict \<and>
   check_response ''read'' [0x01, 0x03, 0x00, 0x00, 0x00, 0x02, 0xC4, 0x0B]
     [0x01, 0x83, 0x02, 0xC0, 0xF1] = Inr (True, EmptyDict)"
proof -
  have ok: "crc_valid [0x01, 0x83, 0x02, 0xC0, 0xF1]"
    by code_simp
  have code: "take 1 (drop 1 [0x01, 0x83, 0x02, 0xC0, 0xF1 :: byte]) \<notin> {[0x03], [0x06], [0x10]}"
    by simp
  show ?thesis
    using unknown_function_code_gives_empty_result [OF ok code] by simp
qed

section \<open>Fields, values and lookups\<close>

lemma uint_byte_of_int: "0 \<le> n \<Longrightarrow> n \<le> 255 \<Longrightarrow> uint (word_of_int n :: byte) = n"
  by (simp add: uint_word_of_int)

lemma unpack_be16: "is_u16 v \<Longrightarrow> data_packer_unpack (be16 v) = Inr v"
proof -
  assume "is_u16 v"
  then have v: "0 \<le> v" "v \<le> 65535" by (simp_all add: is_u16_def)
  then have "0 \<le> v div 256" "v div 256 \<le> 255" by simp_all
  then have hi: "uint (word_of_int (v div 256) :: byte) = v div 256"
    by (rule uint_byte_of_int)
  have lo: "uint (word_of_int (v mod 256) :: byte) = v mod 256"
    by (simp add: uint_word_of_int)
  show ?thesis
    by (simp add: be16_def hi lo)
qed

lemma be16_values_be16: "is_u16 v \<Longrightarrow> be16_values (be16 v @ rest) = v # be16_values rest"
  using unpack_be16 [of v] by (simp add: be16_def)

lemma be16_values_concat:
  "list_all is_u16 vs \<Longrightarrow> be16_values (concat (map be16 vs)) = vs"
  by (induction vs) (simp_all add: be16_values_be16)

lemma length_be16: "length (be16 v) = 2"
  by (simp add: be16_def)

lemma length_concat_be16: "length (concat (map be16 vs)) = 2 * length vs"
  by (induction vs) (simp_all add: length_be16)

lemma unpack_loop_values:
  "2 * n \<le> length buf \<Longrightarrow> unpack_loop n buf = Inr (be16_values (take (2 * n) buf))"
proof (induction n arbitrary: buf)
  case 0
  then show ?case by simp
next
  case (Suc n)
  then obtain hi lo rest where buf: "buf = hi # lo # rest"
    by (cases buf; cases "tl buf") auto
  with Suc.prems have "2 * n \<le> length rest" by simp
  then have "unpack_loop n rest = Inr (be16_values (take (2 * n) rest))"
    by (rule Suc.IH)
  then show ?case
    by (simp add: buf bind_e_def)
qed

lemma pack_loop_values:
  "list_all is_u16 vs \<Longrightarrow> k \<le> length vs \<Longrightarrow>
     pack_loop (Values vs) [k..<length vs] command =
       Inr (command @ concat (map be16 (drop k vs)))"
proof (induction "length vs - k" arbitrary: k command)
  case 0
  then show ?case by simp
next
  case (Suc d)
  then have k: "k < length vs" by simp
  then have range: "[k..<length vs] = k # [Suc k..<length vs]"
    by (simp add: upt_conv_Cons)
  from k have dropk: "drop k vs = vs ! k # drop (Suc k) vs"
    by (simp add: Cons_nth_drop_Suc)
  from Suc.prems(1) k have "is_u16 (vs ! k)"
    by (simp add: list_all_length)
  then have pack: "data_packer_pack (vs ! k) = Inr (be16 (vs ! k))"
    by (simp add: data_packer_pack_def be16_def is_u16_def)
  have "pack_loop (Values vs) [Suc k..<length vs] (command @ be16 (vs ! k)) =
          Inr ((command @ be16 (vs ! k)) @ concat (map be16 (drop (Suc k) vs)))"
    using Suc.hyps(2) Suc.prems(1) k by (intro Suc.hyps(1)) simp_all
  then show ?case
    using k by (simp add: range dropk pack bind_e_def)
qed

lemma reverse_lookup_registers:
  "dict_get registers name = Inr r \<Longrightarrow> reverse_lookup registers r = Some name"
  by (auto simp add: dict_get_def registers_def split: if_splits)

lemma reverse_lookup_in_order:
  "reverse_lookup registers r = Some name \<Longrightarrow> name \<in> set register_order"
  by (auto simp add: registers_def register_order_def split: if_splits)

lemma list_index_known: "x \<in> set xs \<Longrightarrow> \<exists>i. list_index xs x = Inr i \<and> i < length xs"
  by (induction xs) (auto simp add: bind_e_def)

lemma list_index_in_set: "list_index xs x = Inr i \<Longrightarrow> x \<in> set xs"
  by (induction xs arbitrary: i) (auto simp add: bind_e_def split: if_splits sum.splits)

lemma list_of_length_8:
  "length xs = 8 \<Longrightarrow> \<exists>a b c d e f g h. xs = [a, b, c, d, e, f, g, h]"
  by (simp add: numeral_eq_Suc length_Suc_conv) blast

lemma list_of_length_2: "length xs = 2 \<Longrightarrow> \<exists>a b. xs = [a, b]"
  by (simp add: numeral_eq_Suc length_Suc_conv) blast

lemma register_window_index:
  "list_index register_order name = Inr i \<Longrightarrow>
     register_window name count = take (nat count) (drop i register_order)"
  by (simp add: register_window_def)

lemma mode_of_0x03: "reverse_lookup function_codes [0x03 :: byte] = Some ''read''"
  by (simp add: function_codes_def)

lemma mode_of_0x06: "reverse_lookup function_codes [0x06 :: byte] = Some ''single_write''"
  by (simp add: function_codes_def)

lemma mode_of_0x10: "reverse_lookup function_codes [0x10 :: byte] = Some ''multiple_write''"
  by (simp add: function_codes_def)

lemma parse_multiple_write:
  assumes "reverse_lookup registers [r1, r2] = Some name"
    and "data_packer_unpack [c1, c2] = Inr count"
    and "list_index register_order name = Inr i"
    and "unpack_loop (nat count) (drop 7 (take (length command - 2) command)) = Inr vs"
  shows "parse_response command [a, 0x10, r1, r2, c1, c2, k1, k2] =
      Inr (ParsedData (uint a) ''multiple_write''
             (RegisterList (take (nat count) (drop i register_order)))
             (Values vs))"
  unfolding parse_response_def
  apply (simp only: list.size take_Suc_Cons take_0 drop_Suc_Cons drop_0 One_nat_def)
  apply (simp add: mode_of_0x10 del: data_packer_unpack.simps)
  apply (simp add: bind_e_def Let_def assms del: data_packer_unpack.simps)
  done

lemma parse_single_write:
  assumes "reverse_lookup registers [r1, r2] = Some name"
    and "data_packer_unpack [v1, v2] = Inr v"
  shows "parse_response command [a, 0x06, r1, r2, v1, v2, k1, k2] =
      Inr (ParsedData (uint a) ''single_write'' (RegisterName name) (Value v))"
  unfolding parse_response_def
  apply (simp only: list.size take_Suc_Cons take_0 drop_Suc_Cons drop_0 One_nat_def)
  apply (simp add: mode_of_0x06 del: data_packer_unpack.simps)
  apply (simp add: bind_e_def Let_def assms del: data_packer_unpack.simps)
  done

lemma parse_read:
  assumes c: "length c = 2"
    and start: "reverse_lookup registers (take 2 (drop 2 command)) = Some name"
    and i: "list_index register_order name = Inr i"
    and vals: "unpack_loop (nat (uint bc div 2)) p = Inr vs"
  shows "parse_response command ((a # 0x03 # bc # p) @ c) =
      Inr (ParsedData (uint a) ''read''
             (RegisterList (take (nat (uint bc div 2)) (drop i register_order)))
             (Values vs))"
proof -
  have strip: "take (length ((a # 0x03 # bc # p) @ c) - 2) ((a # 0x03 # bc # p) @ c) =
                 a # 0x03 # bc # p"
    using c by simp
  show ?thesis
    unfolding parse_response_def strip
    by (simp add: mode_of_0x03 bind_e_def Let_def start i vals)
qed

section \<open>Decoding the confirmation of a multiple write\<close>

text \<open>
  The sentence of claim C4 as it is worded, for every multiple write command and every
  response whose checksum holds, fails. The decoder dispatches on the function code of the
  response, not on the mode of the command: a multiple write of 7 to \<open>V-SET\<close> answered by
  the valid read frame \<open>01 03 02 00 05\<close> is decoded as a read, and its data is the 5 of the
  response. And the echoed count is trusted: answered by a valid confirmation that echoes
  two registers where one value was sent, the decoder runs off the end of the command's
  payload and raises \<^verbatim>\<open>struct.error\<close>.
\<close>

theorem multiple_write_any_response_counterexample:
  "assemble_command 1 ''multiple_write'' (RegSpan ''V-SET'' 1) (Values [7]) =
     Inr ([0x01, 0x10, 0x00, 0x00, 0x00, 0x01, 0x02, 0x00, 0x07, 0xE7, 0x92],
          [0x01, 0x10, 0x00, 0x00, 0x00, 0x01, 0x01, 0xC9]) \<and>
   crc_valid [0x01, 0x03, 0x02, 0x00, 0x05, 0x78, 0x47] \<and>
   send_command (fixed_port (Inr 0) (Inr 0) [0x01, 0x03, 0x02, 0x00, 0x05, 0x78, 0x47])
       \<lparr>port = Some 0, trace = []\<rparr> 1 ''multiple_write'' (RegSpan ''V-SET'' 1) (Values [7]) =
     (Inr (True, ParsedData 1 ''read'' (RegisterList [''V-SET'']) (Values [5])),
      \<lparr>port = Some 0,
       trace = [InWaiting 0,
                Write 0 [0x01, 0x10, 0x00, 0x00, 0x00, 0x01, 0x02, 0x00, 0x07, 0xE7, 0x92],
                Read 0 8]\<rparr>) \<and>
   crc_valid [0x01, 0x10, 0x00, 0x00, 0x00, 0x02, 0x41, 0xC8] \<and>
   send_command (fixed_port (Inr 0) (Inr 0) [0x01, 0x10, 0x00, 0x00, 0x00, 0x02, 0x41, 0xC8])
       \<lparr>port = Some 0, trace = []\<rparr> 1 ''multiple_write'' (RegSpan ''V-SET'' 1) (Values [7]) =
     (Inl StructError,
      \<lparr>port = Some 0,
       trace = [InWaiting 0,
                Write 0 [0x01, 0x10, 0x00, 0x00, 0x00, 0x01, 0x02, 0x00, 0x07, 0xE7, 0x92],
                Read 0 8]\<rparr>)"
proof -
  have frames: "assemble_command 1 ''multiple_write'' (RegSpan ''V-SET'' 1) (Values [7]) =
     Inr ([0x01, 0x10, 0x00, 0x00, 0x00, 0x01, 0x02, 0x00, 0x07, 0xE7, 0x92],
          [0x01, 0x10, 0x00, 0x00, 0x00, 0x01, 0x01, 0xC9])"
    by code_simp
  have valid1: "crc_valid [0x01, 0x03, 0x02, 0x00, 0x05, 0x78, 0x47]"
    by code_simp
  have valid2: "crc_valid [0x01, 0x10, 0x00, 0x00, 0x00, 0x02, 0x41, 0xC8]"
    by code_simp
  have sent: "\<And>reply. send (fixed_port (Inr 0) (Inr 0) reply) \<lparr>port = Some 0, trace = []\<rparr>
        [0x01, 0x10, 0x00, 0x00, 0x00, 0x01, 0x02, 0x00, 0x07, 0xE7, 0x92]
        (length [0x01 :: byte, 0x10, 0x00, 0x00, 0x00, 0x01, 0x01, 0xC9]) =
      (Inr reply,
       \<lparr>port = Some 0,
        trace = [InWaiting 0,
                 Write 0 [0x01, 0x10, 0x00, 0x00, 0x00, 0x01, 0x02, 0x00, 0x07, 0xE7, 0x92],
                 Read 0 8]\<rparr>)"
    by (simp add: send_def is_port_alive_def fixed_port_def log_event_def)
  have chk1: "check_response ''multiple_write''
        [0x01, 0x10, 0x00, 0x00, 0x00, 0x01, 0x02, 0x00, 0x07, 0xE7, 0x92]
        [0x01, 0x03, 0x02, 0x00, 0x05, 0x78, 0x47] =
      Inr (True, ParsedData 1 ''read'' (RegisterList [''V-SET'']) (Values [5]))"
    by code_simp
  have chk2: "check_response ''multiple_write''
        [0x01, 0x10, 0x00, 0x00, 0x00, 0x01, 0x02, 0x00, 0x07, 0xE7, 0x92]
        [0x01, 0x10, 0x00, 0x00, 0x00, 0x02, 0x41, 0xC8] = Inl StructError"
    by code_simp
  show ?thesis
    using frames valid1 valid2 send_command_checked [OF frames sent chk1]
      send_command_checked [OF frames sent chk2]
    by simp
qed

text \<open>
  Claim C4, amended. For every command frame and every response whose checksum holds and
  which has the shape of a multiple write confirmation (8 bytes, function code \<open>0x10\<close>, an
  echoed starting address that is in the catalog, an echoed count of at most the number of
  two-byte values in the payload of the command frame), the decoder returns the echoed
  address of the device, the window of \<open>register_order\<close> that starts at the echoed register
  and has the echoed count of names, and as data the first count values of the payload of
  the command frame, its bytes after the 7-byte header and before its checksum. No byte of
  the response enters the data.
\<close>

theorem multiple_write_values_from_command:
  assumes valid: "crc_valid response"
    and shape: "length response = 8" "take 1 (drop 1 response) = [0x10]"
    and start: "reverse_lookup registers (take 2 (drop 2 response)) = Some name"
    and count: "data_packer_unpack (take 2 (drop 4 response)) = Inr count"
    and enough: "2 * nat count + 9 \<le> length command"
  shows "check_response mode command response =
           Inr (True, ParsedData (uint (hd response)) ''multiple_write''
                  (RegisterList (register_window name count))
                  (Values (be16_values
                     (take (2 * nat count) (drop 7 (take (length command - 2) command))))))"
proof -
  from shape(1) obtain a f r1 r2 c1 c2 k1 k2 where r: "response = [a, f, r1, r2, c1, c2, k1, k2]"
    using list_of_length_8 by blast
  from shape(2) r have f: "f = 0x10" by simp
  from start r have start': "reverse_lookup registers [r1, r2] = Some name" by simp
  from count r have count': "data_packer_unpack [c1, c2] = Inr count" by simp
  from start' have "name \<in> set register_order"
    by (rule reverse_lookup_in_order)
  from list_index_known [OF this] obtain i where i: "list_index register_order name = Inr i"
    by (elim exE conjE)
  have window: "register_window name count = take (nat count) (drop i register_order)"
    using i by (rule register_window_index)
  define payload where "payload = drop 7 (take (length command - 2) command)"
  have "2 * nat count \<le> length payload"
    using enough by (simp add: payload_def)
  then have vals: "unpack_loop (nat count) payload = Inr (be16_values (take (2 * nat count) payload))"
    by (rule unpack_loop_values)
  have "parse_response command [a, 0x10, r1, r2, c1, c2, k1, k2] =
      Inr (ParsedData (uint a) ''multiple_write''
             (RegisterList (take (nat count) (drop i register_order)))
             (Values (be16_values (take (2 * nat count) payload))))"
    using start' count' i vals [unfolded payload_def] unfolding payload_def
    by (rule parse_multiple_write)
  then have "parse_response command response =
      Inr (ParsedData (uint (hd response)) ''multiple_write''
             (RegisterList (register_window name count))
             (Values (be16_values (take (2 * nat count) payload))))"
    by (simp only: r f window list.sel)
  then show ?thesis
    unfolding check_response_eq payload_def using valid by (simp only: if_True bind_e_def sum.case)
qed

theorem multiple_write_values_from_command_witness:
  "check_response ''multiple_write''
     [0x01, 0x10, 0x00, 0x00, 0x00, 0x02, 0x04, 0x04, 0xD2, 0x01, 0xF4, 0x52, 0xB1]
     [0x01, 0x10, 0x00, 0x00, 0x00, 0x02, 0x41, 0xC8] =
   Inr (True, ParsedData 1 ''multiple_write'' (RegisterList [''V-SET'', ''I-SET''])
                (Values [1234, 500]))"
proof -
  have valid: "crc_valid [0x01, 0x10, 0x00, 0x00, 0x00, 0x02, 0x41, 0xC8]"
    by code_simp
  have len: "length [0x01 :: byte, 0x10, 0x00, 0x00, 0x00, 0x02, 0x41, 0xC8] = 8"
    by simp
  have code: "take 1 (drop 1 [0x01 :: byte, 0x10, 0x00, 0x00, 0x00, 0x02, 0x41, 0xC8]) = [0x10]"
    by simp
  have start: "reverse_lookup registers
      (take 2 (drop 2 [0x01 :: byte, 0x10, 0x00, 0x00, 0x00, 0x02, 0x41, 0xC8])) = Some ''V-SET''"
    by (simp add: registers_def)
  have count: "data_packer_unpack
      (take 2 (drop 4 [0x01 :: byte, 0x10, 0x00, 0x00, 0x00, 0x02, 0x41, 0xC8])) = Inr 2"
    by simp
  have enough: "2 * nat 2 + 9 \<le>
      length [0x01 :: byte, 0x10, 0x00, 0x00, 0x00, 0x02, 0x04, 0x04, 0xD2, 0x01, 0xF4, 0x52, 0xB1]"
    by simp
  have window: "register_window ''V-SET'' 2 = [''V-SET'', ''I-SET'']"
    by (simp add: register_window_def register_order_def)
  show ?thesis
    using multiple_write_values_from_command [OF valid len code start count enough, of "''multiple_write''"]
    by (simp add: window)
qed

section \<open>The round trip\<close>

lemma crc_valid_append: "crc_valid (body @ spec_crc16 body)"
  by (simp add: crc_valid_iff length_spec_crc16)

lemma function_code_of_mode:
  "dict_get function_codes ''read'' = Inr [0x03]"
  "dict_get function_codes ''single_write'' = Inr [0x06]"
  "dict_get function_codes ''multiple_write'' = Inr [0x10]"
  by (simp_all add: dict_get_def function_codes_def)

lemma pack_byte: "0 \<le> n \<Longrightarrow> n \<le> 255 \<Longrightarrow> byte_packer_pack n = Inr [word_of_int n]"
  by (simp add: byte_packer_pack_def)

lemma pack_u16: "is_u16 v \<Longrightarrow> data_packer_pack v = Inr (be16 v)"
  by (simp add: data_packer_pack_def be16_def is_u16_def)

lemma assemble_read_frames:
  assumes "0 \<le> address" "address \<le> 255"
    and "dict_get registers name = Inr [r1, r2]"
    and "0 \<le> count" "count \<le> 127"
  shows "assemble_command address ''read'' (RegSpan name count) data =
     Inr (let body = [word_of_int address, 0x03, r1, r2] @ be16 count in body @ spec_crc16 body,
          let body = [word_of_int address, 0x03, word_of_int (count * 2)] @
                     concat (map (\<lambda>i. [0x00, 0x00]) [0..<nat count])
          in body @ spec_crc16 body)"
proof -
  have "is_u16 count" using assms by (simp add: is_u16_def)
  then have "data_packer_pack count = Inr (be16 count)" by (rule pack_u16)
  moreover have "byte_packer_pack (count * 2) = Inr [word_of_int (count * 2)]"
    using assms by (intro pack_byte) simp_all
  ultimately show ?thesis
    using assms(1-3)
    by (simp add: assemble_command_def assemble_read_def bind_e_def pack_byte
        function_code_of_mode get_crc_refines Let_def)
qed

lemma assemble_single_write_frames:
  assumes "0 \<le> address" "address \<le> 255"
    and "dict_get registers name = Inr [r1, r2]"
    and "is_u16 v"
  shows "assemble_command address ''single_write'' (RegName name) (Value v) =
     Inr (let body = [word_of_int address, 0x06, r1, r2] @ be16 v in body @ spec_crc16 body,
          let body = [word_of_int address, 0x06, r1, r2] @ be16 v in body @ spec_crc16 body)"
  using assms
  by (simp add: assemble_command_def assemble_single_write_def bind_e_def pack_byte pack_u16
      function_code_of_mode get_crc_refines Let_def)

lemma assemble_multiple_write_frames:
  assumes "0 \<le> address" "address \<le> 255"
    and "dict_get registers name = Inr [r1, r2]"
    and "list_all is_u16 vs" "length vs \<le> 127"
  shows "assemble_command address ''multiple_write'' (RegSpan name (int (length vs))) (Values vs) =
     Inr (let body = [word_of_int address, 0x10, r1, r2] @ be16 (int (length vs)) @
                     [word_of_int (2 * int (length vs))] @ concat (map be16 vs)
          in body @ spec_crc16 body,
          let body = [word_of_int address, 0x10, r1, r2] @ be16 (int (length vs))
          in body @ spec_crc16 body)"
proof -
  have "is_u16 (int (length vs))" using assms by (simp add: is_u16_def)
  then have "data_packer_pack (int (length vs)) = Inr (be16 (int (length vs)))" by (rule pack_u16)
  moreover have "byte_packer_pack (2 * int (length vs)) = Inr [word_of_int (2 * int (length vs))]"
    using assms by (intro pack_byte) simp_all
  moreover have "\<And>command. pack_loop (Values vs) [0..<length vs] command =
       Inr (command @ concat (map be16 vs))"
    using pack_loop_values [OF assms(4), of 0] by simp
  ultimately show ?thesis
    using assms(1-3)
    by (simp add: assemble_command_def assemble_multiple_write_def bind_e_def pack_byte
        function_code_of_mode get_crc_refines Let_def)
qed

lemma check_response_signed:
  "parse_response command (body @ spec_crc16 body) = Inr parsed \<Longrightarrow>
     check_response mode command (body @ spec_crc16 body) = Inr (True, parsed)"
  by (simp add: check_response_eq crc_valid_append bind_e_def)

lemma roundtrip_single_write:
  assumes "0 \<le> address" "address \<le> 255"
    and r: "dict_get registers name = Inr [r1, r2]"
    and v: "is_u16 v"
    and frame: "frame = (let body = [word_of_int address, 0x06, r1, r2] @ be16 v in body @ spec_crc16 body)"
  shows "check_response mode frame frame =
           Inr (True, ParsedData address ''single_write'' (RegisterName name) (Value v))"
proof -
  define body where "body = [word_of_int address :: byte, 0x06, r1, r2] @ be16 v"
  obtain k1 k2 where k: "spec_crc16 body = [k1, k2]"
    by (simp add: spec_crc16_def)
  obtain v1 v2 where vb: "be16 v = [v1, v2]"
    by (simp add: be16_def)
  have f: "frame = [word_of_int address, 0x06, r1, r2, v1, v2, k1, k2]"
    using k by (simp add: frame Let_def vb body_def)
  have "reverse_lookup registers [r1, r2] = Some name"
    using r by (rule reverse_lookup_registers)
  moreover have "data_packer_unpack [v1, v2] = Inr v"
    using unpack_be16 [OF v] by (simp only: vb)
  ultimately have "parse_response frame [word_of_int address, 0x06, r1, r2, v1, v2, k1, k2] =
      Inr (ParsedData (uint (word_of_int address :: byte)) ''single_write''
             (RegisterName name) (Value v))"
    by (rule parse_single_write)
  moreover have "body @ spec_crc16 body = [word_of_int address, 0x06, r1, r2, v1, v2, k1, k2]"
    unfolding k by (simp add: body_def vb)
  ultimately have "parse_response frame (body @ spec_crc16 body) =
      Inr (ParsedData address ''single_write'' (RegisterName name) (Value v))"
    using assms(1,2) by (simp add: uint_byte_of_int)
  then have "check_response mode frame (body @ spec_crc16 body) =
           Inr (True, ParsedData address ''single_write'' (RegisterName name) (Value v))"
    by (rule check_response_signed)
  moreover have "frame = body @ spec_crc16 body"
    by (simp add: frame body_def Let_def)
  ultimately show ?thesis by simp
qed

lemma roundtrip_multiple_write:
  assumes "0 \<le> address" "address \<le> 255"
    and r: "dict_get registers name = Inr [r1, r2]"
    and i: "list_index register_order name = Inr i"
    and vs: "list_all is_u16 vs" "length vs \<le> 127"
    and command: "command = (let body = [word_of_int address, 0x10, r1, r2] @ be16 (int (length vs)) @
                     [word_of_int (2 * int (length vs))] @ concat (map be16 vs)
          in body @ spec_crc16 body)"
    and expected: "expected = (let body = [word_of_int address, 0x10, r1, r2] @ be16 (int (length vs))
          in body @ spec_crc16 body)"
  shows "check_response mode command expected =
           Inr (True, ParsedData address ''multiple_write''
                  (RegisterList (take (length vs) (drop i register_order))) (Values vs))"
proof -
  define body where "body = [word_of_int address :: byte, 0x10, r1, r2] @ be16 (int (length vs))"
  define cbody where "cbody = [word_of_int address :: byte, 0x10, r1, r2] @ be16 (int (length vs)) @
                     [word_of_int (2 * int (length vs))]"
  have n: "is_u16 (int (length vs))" using vs(2) by (simp add: is_u16_def)
  obtain k1 k2 where k: "spec_crc16 body = [k1, k2]"
    by (simp add: spec_crc16_def)
  obtain c1 c2 where cb: "be16 (int (length vs)) = [c1, c2]"
    by (simp add: be16_def)
  have cmd: "command = (cbody @ concat (map be16 vs)) @ spec_crc16 (cbody @ concat (map be16 vs))"
    by (simp add: command cbody_def Let_def)
  have "length cbody = 7" by (simp add: cbody_def cb)
  then have payload: "drop 7 (take (length command - 2) command) = concat (map be16 vs)"
    by (simp add: cmd length_spec_crc16)
  have "2 * length vs \<le> length (concat (map be16 vs))"
    by (simp add: length_concat_be16)
  then have "unpack_loop (length vs) (concat (map be16 vs)) =
      Inr (be16_values (take (2 * length vs) (concat (map be16 vs))))"
    by (rule unpack_loop_values)
  then have vals: "unpack_loop (nat (int (length vs))) (drop 7 (take (length command - 2) command)) = Inr vs"
    using vs(1) by (simp add: payload length_concat_be16 be16_values_concat)
  have "reverse_lookup registers [r1, r2] = Some name"
    using r by (rule reverse_lookup_registers)
  moreover have "data_packer_unpack [c1, c2] = Inr (int (length vs))"
    using unpack_be16 [OF n] by (simp only: cb)
  ultimately have "parse_response command [word_of_int address, 0x10, r1, r2, c1, c2, k1, k2] =
      Inr (ParsedData (uint (word_of_int address :: byte)) ''multiple_write''
             (RegisterList (take (nat (int (length vs))) (drop i register_order))) (Values vs))"
    using i vals by (rule parse_multiple_write)
  moreover have "body @ spec_crc16 body = [word_of_int address, 0x10, r1, r2, c1, c2, k1, k2]"
    unfolding k by (simp add: body_def cb)
  ultimately have "parse_response command (body @ spec_crc16 body) =
      Inr (ParsedData address ''multiple_write''
             (RegisterList (take (length vs) (drop i register_order))) (Values vs))"
    using assms(1,2) by (simp add: uint_byte_of_int)
  then have "check_response mode command (body @ spec_crc16 body) =
           Inr (True, ParsedData address ''multiple_write''
                  (RegisterList (take (length vs) (drop i register_order))) (Values vs))"
    by (rule check_response_signed)
  moreover have "expected = body @ spec_crc16 body"
    by (simp add: expected body_def Let_def)
  ultimately show ?thesis by simp
qed

lemma length_placeholder: "length (concat (map (\<lambda>i. [0x00 :: byte, 0x00]) is)) = 2 * length is"
  by (induction "is") simp_all

lemma roundtrip_read:
  assumes a: "0 \<le> address" "address \<le> 255"
    and r: "dict_get registers name = Inr [r1, r2]"
    and i: "list_index register_order name = Inr i"
    and c: "0 \<le> count" "count \<le> 127"
    and command: "command = (let body = [word_of_int address, 0x03, r1, r2] @ be16 count
                             in body @ spec_crc16 body)"
    and expected: "expected = (let body = [word_of_int address, 0x03, word_of_int (count * 2)] @
                                 concat (map (\<lambda>i. [0x00, 0x00]) [0..<nat count])
                               in body @ spec_crc16 body)"
    and reply: "length response = length expected" "take 3 response = take 3 expected"
      "crc_valid response"
  shows "check_response mode command response =
           Inr (True, ParsedData address ''read''
                  (RegisterList (take (nat count) (drop i register_order)))
                  (Values (be16_values (drop 3 (take (length response - 2) response)))))"
proof -
  define body where "body = take (length response - 2) response"
  define crc where "crc = drop (length response - 2) response"
  define p where "p = drop 3 body"
  have len: "length response = 5 + 2 * nat count"
    by (simp add: reply(1) expected Let_def length_placeholder length_spec_crc16)
  have head: "take 3 response = [word_of_int address, 0x03, word_of_int (count * 2)]"
    by (simp add: reply(2) expected Let_def)
  have split: "response = body @ crc"
    by (simp add: body_def crc_def)
  have crc: "length crc = 2"
    using len by (simp add: crc_def)
  have lbody: "length body = 3 + 2 * nat count"
    using len by (simp add: body_def)
  have "take 3 body = take 3 response"
    using len by (simp add: body_def min_def)
  then have "body = [word_of_int address, 0x03, word_of_int (count * 2)] @ p"
    using append_take_drop_id [of 3 body] by (simp only: head p_def)
  then have body: "body = word_of_int address # 0x03 # word_of_int (count * 2) # p"
    by simp
  have lp: "length p = 2 * nat count"
    using lbody by (simp add: p_def)
  have bc: "uint (word_of_int (count * 2) :: byte) = count * 2"
    using c by (intro uint_byte_of_int) simp_all
  have n: "nat (uint (word_of_int (count * 2) :: byte) div 2) = nat count"
    by (simp only: bc)
  have addr: "uint (word_of_int address :: byte) = address"
    using a by (rule uint_byte_of_int)
  have "2 * nat count \<le> length p" using lp by simp
  then have "unpack_loop (nat count) p = Inr (be16_values (take (2 * nat count) p))"
    by (rule unpack_loop_values)
  then have "unpack_loop (nat count) p = Inr (be16_values p)"
    using lp by simp
  then have vals: "unpack_loop (nat (uint (word_of_int (count * 2) :: byte) div 2)) p =
      Inr (be16_values p)"
    by (simp only: n)
  have "take 2 (drop 2 command) = [r1, r2]"
    by (simp add: command Let_def)
  then have start: "reverse_lookup registers (take 2 (drop 2 command)) = Some name"
    using reverse_lookup_registers [OF r] by simp
  have "parse_response command
          ((word_of_int address # 0x03 # word_of_int (count * 2) # p) @ crc) =
      Inr (ParsedData address ''read'' (RegisterList (take (nat count) (drop i register_order)))
             (Values (be16_values p)))"
    using parse_read [OF crc start i vals] by (simp only: addr n)
  then have "parse_response command response =
      Inr (ParsedData address ''read'' (RegisterList (take (nat count) (drop i register_order)))
             (Values (be16_values p)))"
    by (simp only: split body)
  moreover have "p = drop 3 (take (length response - 2) response)"
    by (simp add: p_def body_def)
  ultimately show ?thesis
    using reply(3) by (simp add: check_response_eq bind_e_def)
qed

lemma catalog_address:
  assumes "list_index register_order name = Inr i"
  shows "\<exists>r1 r2. dict_get registers name = Inr [r1, r2]"
proof -
  from assms have "name \<in> set register_order" by (rule list_index_in_set)
  from dict_get_known_register [OF this] obtain r
    where r: "dict_get registers name = Inr r" "length r = 2"
    by (elim exE conjE)
  from list_of_length_2 [OF r(2)] obtain r1 r2 where "r = [r1, r2]"
    by (elim exE)
  with r(1) show ?thesis by simp
qed

lemma length_register_order: "length register_order = 13"
  by (simp add: register_order_def)

text \<open>
  The sentence of claim C1 as it is worded, for every mode, fails for a read: the command
  of a read carries no data, and the data of the result is what the response holds. A read
  of two registers from \<open>V-SET\<close> answered by the expected response itself, placeholders and
  checksum included, returns the data \<open>[0, 0]\<close>, not the \<^verbatim>\<open>None\<close> of the command.
\<close>

theorem round_trip_read_data_counterexample:
  "valid_command 1 ''read'' (RegSpan ''V-SET'' 2) NoData \<and>
   assemble_command 1 ''read'' (RegSpan ''V-SET'' 2) NoData =
     Inr ([0x01, 0x03, 0x00, 0x00, 0x00, 0x02, 0xC4, 0x0B],
          [0x01, 0x03, 0x04, 0x00, 0x00, 0x00, 0x00, 0xFA, 0x33]) \<and>
   send_command (fixed_port (Inr 0) (Inr 0) [0x01, 0x03, 0x04, 0x00, 0x00, 0x00, 0x00, 0xFA, 0x33])
       \<lparr>port = Some 0, trace = []\<rparr> 1 ''read'' (RegSpan ''V-SET'' 2) NoData =
     (Inr (True, ParsedData 1 ''read'' (RegisterList [''V-SET'', ''I-SET'']) (Values [0, 0])),
      \<lparr>port = Some 0,
       trace = [InWaiting 0, Write 0 [0x01, 0x03, 0x00, 0x00, 0x00, 0x02, 0xC4, 0x0B],
                Read 0 9]\<rparr>) \<and>
   Values [0, 0] \<noteq> NoData"
proof -
  have valid: "valid_command 1 ''read'' (RegSpan ''V-SET'' 2) NoData"
    by (simp add: span_in_catalog_def register_order_def)
  have frames: "assemble_command 1 ''read'' (RegSpan ''V-SET'' 2) NoData =
     Inr ([0x01, 0x03, 0x00, 0x00, 0x00, 0x02, 0xC4, 0x0B],
          [0x01, 0x03, 0x04, 0x00, 0x00, 0x00, 0x00, 0xFA, 0x33])"
    by code_simp
  have sent: "send (fixed_port (Inr 0) (Inr 0) [0x01, 0x03, 0x04, 0x00, 0x00, 0x00, 0x00, 0xFA, 0x33])
        \<lparr>port = Some 0, trace = []\<rparr> [0x01, 0x03, 0x00, 0x00, 0x00, 0x02, 0xC4, 0x0B]
        (length [0x01 :: byte, 0x03, 0x04, 0x00, 0x00, 0x00, 0x00, 0xFA, 0x33]) =
      (Inr [0x01, 0x03, 0x04, 0x00, 0x00, 0x00, 0x00, 0xFA, 0x33],
       \<lparr>port = Some 0,
        trace = [InWaiting 0, Write 0 [0x01, 0x03, 0x00, 0x00, 0x00, 0x02, 0xC4, 0x0B],
                 Read 0 9]\<rparr>)"
    by (simp add: send_def is_port_alive_def fixed_port_def log_event_def)
  have chk: "check_response ''read'' [0x01, 0x03, 0x00, 0x00, 0x00, 0x02, 0xC4, 0x0B]
        [0x01, 0x03, 0x04, 0x00, 0x00, 0x00, 0x00, 0xFA, 0x33] =
      Inr (True, ParsedData 1 ''read'' (RegisterList [''V-SET'', ''I-SET'']) (Values [0, 0]))"
    by code_simp
  show ?thesis
    using valid frames send_command_checked [OF frames sent chk] by simp
qed

text \<open>
  Claim C1, amended. For every valid command the frame is built, and whenever \<^verbatim>\<open>__send\<close>
  returns an answer that matches the expected response (for the two writes the expected
  response itself; for a read the same length, the same address, function code and byte
  count, and a checksum that holds), \<^verbatim>\<open>send_command\<close> returns true with a result that holds
  the address and the mode of the command, as registers the register of the command or the
  window of names its span stands for, and as data the data of the command for the two
  writes, and for a read the 16-bit values that the response carries.
\<close>

theorem round_trip:
  assumes valid: "valid_command address mode regs data"
  shows "\<exists>command expected_response.
           assemble_command address mode regs data = Inr (command, expected_response) \<and>
           (\<forall>response s1.
              send env s command (length expected_response) = (Inr response, s1) \<and>
              correct_reply mode expected_response response \<longrightarrow>
              send_command env s address mode regs data =
                (Inr (True, ParsedData address mode (original_registers regs)
                        (if mode = ''read''
                         then Values (be16_values
                                (drop 3 (take (length response - 2) response)))
                         else data)), s1))"
proof (cases regs)
  case (RegName name)
  with valid obtain v where data: "data = Value v" and mode: "mode = ''single_write''"
    and a: "0 \<le> address" "address \<le> 255" and n: "name \<in> set register_order" and v: "is_u16 v"
    by (cases data) auto
  from list_index_known [OF n] obtain i where "list_index register_order name = Inr i"
    by (elim exE conjE)
  from catalog_address [OF this] obtain r1 r2 where r: "dict_get registers name = Inr [r1, r2]"
    by (elim exE)
  define frame where
    "frame = (let body = [word_of_int address, 0x06, r1, r2] @ be16 v in body @ spec_crc16 body)"
  have asm: "assemble_command address mode regs data = Inr (frame, frame)"
    unfolding RegName data mode frame_def using a r v by (rule assemble_single_write_frames)
  have chk: "check_response mode frame frame =
           Inr (True, ParsedData address ''single_write'' (RegisterName name) (Value v))"
    using a r v frame_def by (rule roundtrip_single_write)
  have "\<forall>response s1.
          send env s frame (length frame) = (Inr response, s1) \<and>
          correct_reply mode frame response \<longrightarrow>
          send_command env s address mode regs data =
            (Inr (True, ParsedData address mode (original_registers regs)
                    (if mode = ''read''
                     then Values (be16_values (drop 3 (take (length response - 2) response)))
                     else data)), s1)"
  proof (intro allI impI, elim conjE)
    fix response s1
    assume sent: "send env s frame (length frame) = (Inr response, s1)"
      and "correct_reply mode frame response"
    then have resp: "response = frame" by (simp add: correct_reply_def mode)
    show "send_command env s address mode regs data =
            (Inr (True, ParsedData address mode (original_registers regs)
                    (if mode = ''read''
                     then Values (be16_values (drop 3 (take (length response - 2) response)))
                     else data)), s1)"
      using send_command_checked [OF asm sent [unfolded resp] chk]
      by (simp add: mode RegName data)
  qed
  with asm show ?thesis by blast
next
  case (RegSpan name count)
  with valid have a: "0 \<le> address" "address \<le> 255"
    and modes: "mode = ''read'' \<or> mode = ''multiple_write''"
    and span: "span_in_catalog name count" and vd: "valid_data mode count data"
    by auto
  from span obtain i where i: "list_index register_order name = Inr i"
    and c: "0 \<le> count" "int i + count \<le> 13"
    by (auto simp add: span_in_catalog_def length_register_order split: sum.splits)
  from c have c127: "count \<le> 127" by simp
  from catalog_address [OF i] obtain r1 r2 where r: "dict_get registers name = Inr [r1, r2]"
    by (elim exE)
  have window: "original_registers regs = RegisterList (take (nat count) (drop i register_order))"
    by (simp add: RegSpan register_window_index [OF i])
  from modes show ?thesis
  proof
    assume mode: "mode = ''read''"
    define command where
      "command = (let body = [word_of_int address, 0x03, r1, r2] @ be16 count
                  in body @ spec_crc16 body)"
    define expected where
      "expected = (let body = [word_of_int address, 0x03, word_of_int (count * 2)] @
                                 concat (map (\<lambda>i. [0x00, 0x00]) [0..<nat count])
                   in body @ spec_crc16 body)"
    have asm: "assemble_command address mode regs data = Inr (command, expected)"
      unfolding RegSpan mode command_def expected_def
      using a r c(1) c127 by (rule assemble_read_frames)
    have "\<forall>response s1.
          send env s command (length expected) = (Inr response, s1) \<and>
          correct_reply mode expected response \<longrightarrow>
          send_command env s address mode regs data =
            (Inr (True, ParsedData address mode (original_registers regs)
                    (if mode = ''read''
                     then Values (be16_values (drop 3 (take (length response - 2) response)))
                     else data)), s1)"
    proof (intro allI impI, elim conjE)
      fix response s1
      assume sent: "send env s command (length expected) = (Inr response, s1)"
        and "correct_reply mode expected response"
      then have reply: "length response = length expected" "take 3 response = take 3 expected"
        "crc_valid response"
        by (simp_all add: correct_reply_def mode)
      have chk: "check_response mode command response =
           Inr (True, ParsedData address ''read''
                  (RegisterList (take (nat count) (drop i register_order)))
                  (Values (be16_values (drop 3 (take (length response - 2) response)))))"
        using a r i c(1) c127 command_def expected_def reply by (rule roundtrip_read)
      show "send_command env s address mode regs data =
            (Inr (True, ParsedData address mode (original_registers regs)
                    (if mode = ''read''
                     then Values (be16_values (drop 3 (take (length response - 2) response)))
                     else data)), s1)"
        using send_command_checked [OF asm sent chk] by (simp add: mode window)
    qed
    with asm show ?thesis by blast
  next
    assume mode: "mode = ''multiple_write''"
    with vd obtain vs where data: "data = Values vs" and len: "int (length vs) = count"
      and vs: "list_all is_u16 vs"
      by (cases data) auto
    from len c127 have l127: "length vs \<le> 127" by simp
    from len have ncount: "nat count = length vs" by simp
    define command where
      "command = (let body = [word_of_int address, 0x10, r1, r2] @ be16 (int (length vs)) @
                     [word_of_int (2 * int (length vs))] @ concat (map be16 vs)
          in body @ spec_crc16 body)"
    define expected where
      "expected = (let body = [word_of_int address, 0x10, r1, r2] @ be16 (int (length vs))
          in body @ spec_crc16 body)"
    have asm: "assemble_command address mode regs data = Inr (command, expected)"
      unfolding RegSpan mode data command_def expected_def len [symmetric]
      using a r vs l127 by (rule assemble_multiple_write_frames)
    have chk: "check_response mode command expected =
           Inr (True, ParsedData address ''multiple_write''
                  (RegisterList (take (length vs) (drop i register_order))) (Values vs))"
      using a r i vs l127 command_def expected_def by (rule roundtrip_multiple_write)
    have "\<forall>response s1.
          send env s command (length expected) = (Inr response, s1) \<and>
          correct_reply mode expected response \<longrightarrow>
          send_command env s address mode regs data =
            (Inr (True, ParsedData address mode (original_registers regs)
                    (if mode = ''read''
                     then Values (be16_values (drop 3 (take (length response - 2) response)))
                     else data)), s1)"
    proof (intro allI impI, elim conjE)
      fix response s1
      assume sent: "send env s command (length expected) = (Inr response, s1)"
        and "correct_reply mode expected response"
      then have resp: "response = expected" by (simp add: correct_reply_def mode)
      show "send_command env s address mode regs data =
            (Inr (True, ParsedData address mode (original_registers regs)
                    (if mode = ''read''
                     then Values (be16_values (drop 3 (take (length response - 2) response)))
                     else data)), s1)"
        using send_command_checked [OF asm sent [unfolded resp] chk]
        by (simp add: mode window data ncount)
    qed
    with asm show ?thesis by blast
  qed
qed

theorem round_trip_witness:
  "send_command (fixed_port (Inr 0) (Inr 0) [0x01, 0x03, 0x04, 0x04, 0xD2, 0x01, 0xF4, 0x5B, 0x2D])
      \<lparr>port = Some 0, trace = []\<rparr> 1 ''read'' (RegSpan ''V-SET'' 2) NoData =
     (Inr (True, ParsedData 1 ''read'' (RegisterList [''V-SET'', ''I-SET''])
                   (Values [1234, 500])),
      \<lparr>port = Some 0,
       trace = [InWaiting 0, Write 0 [0x01, 0x03, 0x00, 0x00, 0x00, 0x02, 0xC4, 0x0B],
                Read 0 9]\<rparr>) \<and>
   send_command (fixed_port (Inr 0) (Inr 0) [0x01, 0x10, 0x00, 0x00, 0x00, 0x02, 0x41, 0xC8])
      \<lparr>port = Some 0, trace = []\<rparr> 1 ''multiple_write'' (RegSpan ''V-SET'' 2)
      (Values [1234, 500]) =
     (Inr (True, ParsedData 1 ''multiple_write'' (RegisterList [''V-SET'', ''I-SET''])
                   (Values [1234, 500])),
      \<lparr>port = Some 0,
       trace = [InWaiting 0,
                Write 0 [0x01, 0x10, 0x00, 0x00, 0x00, 0x02, 0x04, 0x04, 0xD2, 0x01, 0xF4,
                         0x52, 0xB1],
                Read 0 8]\<rparr>) \<and>
   send_command (fixed_port (Inr 0) (Inr 0) [0x01, 0x06, 0x00, 0x00, 0x01, 0xF4, 0x89, 0xDD])
      \<lparr>port = Some 0, trace = []\<rparr> 1 ''single_write'' (RegName ''V-SET'') (Value 500) =
     (Inr (True, ParsedData 1 ''single_write'' (RegisterName ''V-SET'') (Value 500)),
      \<lparr>port = Some 0,
       trace = [InWaiting 0, Write 0 [0x01, 0x06, 0x00, 0x00, 0x01, 0xF4, 0x89, 0xDD],
                Read 0 8]\<rparr>)"
proof -
  define s :: session where "s = \<lparr>port = Some 0, trace = []\<rparr>"
  have sent: "\<And>reply command n. send (fixed_port (Inr 0) (Inr 0) reply) s command n =
      (Inr reply, \<lparr>port = Some 0, trace = [InWaiting 0, Write 0 command, Read 0 n]\<rparr>)"
    by (simp add: s_def send_def is_port_alive_def fixed_port_def log_event_def)
  have window: "original_registers (RegSpan ''V-SET'' 2) = RegisterList [''V-SET'', ''I-SET'']"
    by (simp add: register_window_def register_order_def)
  have read: "send_command
      (fixed_port (Inr 0) (Inr 0) [0x01, 0x03, 0x04, 0x04, 0xD2, 0x01, 0xF4, 0x5B, 0x2D])
      s 1 ''read'' (RegSpan ''V-SET'' 2) NoData =
     (Inr (True, ParsedData 1 ''read'' (RegisterList [''V-SET'', ''I-SET''])
                   (Values [1234, 500])),
      \<lparr>port = Some 0,
       trace = [InWaiting 0, Write 0 [0x01, 0x03, 0x00, 0x00, 0x00, 0x02, 0xC4, 0x0B],
                Read 0 9]\<rparr>)"
  proof -
    have valid: "valid_command 1 ''read'' (RegSpan ''V-SET'' 2) NoData"
      by (simp add: span_in_catalog_def register_order_def)
    have frames: "assemble_command 1 ''read'' (RegSpan ''V-SET'' 2) NoData =
      Inr ([0x01, 0x03, 0x00, 0x00, 0x00, 0x02, 0xC4, 0x0B],
           [0x01, 0x03, 0x04, 0x00, 0x00, 0x00, 0x00, 0xFA, 0x33])"
      by code_simp
    have "crc_valid [0x01, 0x03, 0x04, 0x04, 0xD2, 0x01, 0xF4, 0x5B, 0x2D]"
      by code_simp
    then have reply: "correct_reply ''read''
        [0x01, 0x03, 0x04, 0x00, 0x00, 0x00, 0x00, 0xFA, 0x33]
        [0x01, 0x03, 0x04, 0x04, 0xD2, 0x01, 0xF4, 0x5B, 0x2D]"
      by (simp add: correct_reply_def)
    show ?thesis
      using round_trip [OF valid,
          of "fixed_port (Inr 0) (Inr 0) [0x01, 0x03, 0x04, 0x04, 0xD2, 0x01, 0xF4, 0x5B, 0x2D]" s]
        frames sent reply window
      by auto
  qed
  have multiple: "send_command
      (fixed_port (Inr 0) (Inr 0) [0x01, 0x10, 0x00, 0x00, 0x00, 0x02, 0x41, 0xC8])
      s 1 ''multiple_write'' (RegSpan ''V-SET'' 2) (Values [1234, 500]) =
     (Inr (True, ParsedData 1 ''multiple_write'' (RegisterList [''V-SET'', ''I-SET''])
                   (Values [1234, 500])),
      \<lparr>port = Some 0,
       trace = [InWaiting 0,
                Write 0 [0x01, 0x10, 0x00, 0x00, 0x00, 0x02, 0x04, 0x04, 0xD2, 0x01, 0xF4,
                         0x52, 0xB1],
                Read 0 8]\<rparr>)"
  proof -
    have valid: "valid_command 1 ''multiple_write'' (RegSpan ''V-SET'' 2) (Values [1234, 500])"
      by (simp add: span_in_catalog_def register_order_def is_u16_def)
    have frames:
      "assemble_command 1 ''multiple_write'' (RegSpan ''V-SET'' 2) (Values [1234, 500]) =
         Inr ([0x01, 0x10, 0x00, 0x00, 0x00, 0x02, 0x04, 0x04, 0xD2, 0x01, 0xF4, 0x52, 0xB1],
              [0x01, 0x10, 0x00, 0x00, 0x00, 0x02, 0x41, 0xC8])"
      by code_simp
    have reply: "correct_reply ''multiple_write''
        [0x01, 0x10, 0x00, 0x00, 0x00, 0x02, 0x41, 0xC8]
        [0x01, 0x10, 0x00, 0x00, 0x00, 0x02, 0x41, 0xC8]"
      by (simp add: correct_reply_def)
    show ?thesis
      using round_trip [OF valid,
          of "fixed_port (Inr 0) (Inr 0) [0x01, 0x10, 0x00, 0x00, 0x00, 0x02, 0x41, 0xC8]" s]
        frames sent reply window
      by auto
  qed
  have single: "send_command
      (fixed_port (Inr 0) (Inr 0) [0x01, 0x06, 0x00, 0x00, 0x01, 0xF4, 0x89, 0xDD])
      s 1 ''single_write'' (RegName ''V-SET'') (Value 500) =
     (Inr (True, ParsedData 1 ''single_write'' (RegisterName ''V-SET'') (Value 500)),
      \<lparr>port = Some 0,
       trace = [InWaiting 0, Write 0 [0x01, 0x06, 0x00, 0x00, 0x01, 0xF4, 0x89, 0xDD],
                Read 0 8]\<rparr>)"
  proof -
    have valid: "valid_command 1 ''single_write'' (RegName ''V-SET'') (Value 500)"
      by (simp add: register_order_def is_u16_def)
    have frames: "assemble_command 1 ''single_write'' (RegName ''V-SET'') (Value 500) =
         Inr ([0x01, 0x06, 0x00, 0x00, 0x01, 0xF4, 0x89, 0xDD],
              [0x01, 0x06, 0x00, 0x00, 0x01, 0xF4, 0x89, 0xDD])"
      by code_simp
    have reply: "correct_reply ''single_write''
        [0x01, 0x06, 0x00, 0x00, 0x01, 0xF4, 0x89, 0xDD]
        [0x01, 0x06, 0x00, 0x00, 0x01, 0xF4, 0x89, 0xDD]"
      by (simp add: correct_reply_def)
    show ?thesis
      using round_trip [OF valid,
          of "fixed_port (Inr 0) (Inr 0) [0x01, 0x06, 0x00, 0x00, 0x01, 0xF4, 0x89, 0xDD]" s]
        frames sent reply
      by auto
  qed
  show ?thesis
    using read multiple single unfolding s_def by (intro conjI)
qed

end
